theory Spec2Isabelle
  imports Main "HOL-Library.Char_ord" "HOL-Library.List_Lexorder" "HOL-Library.Word"
begin

section \<open>HPACKHeaderName: the name of a header as a pointer to a string\<close>

text \<open>
  The class has one field, \<^verbatim>\<open>const std::string* address_\<close>, which is null, points
  at an entry of the table of common header names, or points at a string the object owns.
  The embedding keeps that representation: an address is a natural number (0 is
  \<^verbatim>\<open>nullptr\<close>, addresses count string objects, so that the table's entry \<open>i\<close> lies at
  its base plus \<open>i\<close>), the strings created by \<^verbatim>\<open>new\<close> live in an explicit heap, and every
  object of the class is named by a variable whose \<open>address\<close> the state records.
  Methods take the state and the variables of \<^verbatim>\<open>this\<close> and of their argument, so that
  \<^verbatim>\<open>a = a\<close> is the call with both variables the same.
\<close>

type_synonym addr = nat

type_synonym var = nat

subsection \<open>The table of common header names\<close>

text \<open>
  \<^verbatim>\<open>HTTPCommonHeaders.h\<close> is included by the source and is not part of it. The registry
  is a parameter of every operation: the base address of its table, the strings of the
  table, and its function \<^verbatim>\<open>HTTPCommonHeaders::hash\<close>, which classifies a name as one of the
  two sentinels or as the common header with a given index in the table.
\<close>

datatype HTTPHeaderCode = HTTP_HEADER_NONE | HTTP_HEADER_OTHER | HTTP_HEADER_COMMON nat

record registry =
  tbl_base :: addr
  tbl :: "string list"
  HTTPCommonHeaders_hash :: "string \<Rightarrow> HTTPHeaderCode"

text \<open>\<^verbatim>\<open>::tolower\<close> in the C locale: the letters A to Z move to a to z, every other byte stays.\<close>

definition tolower :: "char \<Rightarrow> char" where
  "tolower c = (if CHR ''A'' \<le> c \<and> c \<le> CHR ''Z'' then char_of (of_char c + (32::nat)) else c)"

definition lowercase :: "string \<Rightarrow> string" where
  "lowercase name = map tolower name"

text \<open>
  Modelled from the spec: \<^verbatim>\<open>HTTPCommonHeaders::getPointerToHeaderName\<close> (the registry's
  \<^verbatim>\<open>lookup\<close>) is missing from the sources. It gives the reference to the stored string of
  a code that is no sentinel; the class never calls it on a sentinel.
\<close>

definition getPointerToHeaderName :: "registry \<Rightarrow> HTTPHeaderCode \<Rightarrow> addr" where
  "getPointerToHeaderName r code =
     (case code of HTTP_HEADER_COMMON i \<Rightarrow> tbl_base r + i | _ \<Rightarrow> 0)"

text \<open>
  Modelled from the spec: \<^verbatim>\<open>HTTPCommonHeaders::isHeaderNameFromTable\<close> (the registry's
  \<^verbatim>\<open>isFromTable\<close>) is missing from the sources. It reports whether a reference points
  into the registry's storage: the test on the address range.
\<close>

definition isHeaderNameFromTable :: "registry \<Rightarrow> addr \<Rightarrow> bool" where
  "isHeaderNameFromTable r a = (tbl_base r \<le> a \<and> a < tbl_base r + length (tbl r))"

text \<open>
  Modelled from the spec: what the class relies on from the registry. The table does not
  lie at the null address, and the code a name is classified as, when it is no sentinel,
  is the index of the name's canonical lowercase form in the table (classification is
  without regard to case, lookup gives the canonical lowercase string).
\<close>

definition registry_ok :: "registry \<Rightarrow> bool" where
  "registry_ok r =
     (0 < tbl_base r \<and>
      (\<forall>name i. HTTPCommonHeaders_hash r name = HTTP_HEADER_COMMON i \<longrightarrow>
         i < length (tbl r) \<and> tbl r ! i = lowercase name))"

subsection \<open>State: the objects and the heap\<close>

text \<open>
  The source checks nothing and reports nothing. Dereferencing \<^verbatim>\<open>nullptr\<close> and reading
  a string that was deleted are undefined behaviour there; the model gives them the
  outcomes \<open>NullDereference\<close> and \<open>UseAfterFree\<close>. \<open>InvalidState\<close> is the checked error
  the specification speaks of; no function of the class returns it.
\<close>

datatype error = InvalidState | NullDereference | UseAfterFree

record hstate =
  address :: "var \<Rightarrow> addr"
  heap :: "(addr \<times> string) list"

definition deref :: "registry \<Rightarrow> hstate \<Rightarrow> addr \<Rightarrow> error + string" where
  "deref r st a =
     (if a = 0 then Inl NullDereference
      else if isHeaderNameFromTable r a then Inr (tbl r ! (a - tbl_base r))
      else (case map_of (heap st) a of None \<Rightarrow> Inl UseAfterFree | Some s \<Rightarrow> Inr s))"

text \<open>
  \<^verbatim>\<open>new std::string(...)\<close>: the string is stored at an address that is not null, not in
  the table and not in use. Allocation always succeeds: the heap has no bound.
\<close>

definition fresh_addr :: "registry \<Rightarrow> hstate \<Rightarrow> addr" where
  "fresh_addr r st = Suc (fold max (map fst (heap st)) (tbl_base r + length (tbl r)))"

definition new_string :: "registry \<Rightarrow> hstate \<Rightarrow> string \<Rightarrow> addr \<times> hstate" where
  "new_string r st s = (let p = fresh_addr r st in (p, st\<lparr>heap := (p, s) # heap st\<rparr>))"

definition delete_string :: "hstate \<Rightarrow> addr \<Rightarrow> hstate" where
  "delete_string st p = st\<lparr>heap := filter (\<lambda>kv. fst kv \<noteq> p) (heap st)\<rparr>"

definition set_address :: "hstate \<Rightarrow> var \<Rightarrow> addr \<Rightarrow> hstate" where
  "set_address st this a = st\<lparr>address := (address st)(this := a)\<rparr>"

subsection \<open>The private members\<close>

definition isAllocated :: "registry \<Rightarrow> hstate \<Rightarrow> var \<Rightarrow> bool" where
  "isAllocated r st this =
     (if address st this = 0 then False
      else \<not> isHeaderNameFromTable r (address st this))"

definition get :: "registry \<Rightarrow> hstate \<Rightarrow> var \<Rightarrow> error + string" where
  "get r st this = deref r st (address st this)"

definition storeAddress :: "registry \<Rightarrow> hstate \<Rightarrow> var \<Rightarrow> string \<Rightarrow> hstate" where
  "storeAddress r st this name =
     (let headerCode = HTTPCommonHeaders_hash r name in
      if headerCode = HTTP_HEADER_NONE \<or> headerCode = HTTP_HEADER_OTHER
      then (let (newAddress, st') = new_string r st (map tolower name)
            in set_address st' this newAddress)
      else set_address st this (getPointerToHeaderName r headerCode))"

definition copyAddress :: "registry \<Rightarrow> hstate \<Rightarrow> var \<Rightarrow> var \<Rightarrow> error + hstate" where
  "copyAddress r st this headerName =
     (if isAllocated r st headerName
      then (case get r st headerName of
              Inl e \<Rightarrow> Inl e
            | Inr s \<Rightarrow> (let (p, st') = new_string r st s in Inr (set_address st' this p)))
      else Inr (set_address st this (address st headerName)))"

definition moveAddress :: "hstate \<Rightarrow> var \<Rightarrow> var \<Rightarrow> hstate" where
  "moveAddress st this goner =
     (let st1 = set_address st this (address st goner)
      in set_address st1 goner 0)"

definition resetAddress :: "registry \<Rightarrow> hstate \<Rightarrow> var \<Rightarrow> hstate" where
  "resetAddress r st this =
     (let st1 = (if isAllocated r st this then delete_string st (address st this) else st)
      in set_address st1 this 0)"

subsection \<open>Constructors, assignment, destructor\<close>

text \<open>
  A constructor runs the default member initializer \<^verbatim>\<open>address_ = nullptr\<close> and then
  its body; an assignment operator runs on an object that exists.
\<close>

definition ctor_default :: "hstate \<Rightarrow> var \<Rightarrow> hstate" where
  "ctor_default st this = set_address st this 0"

definition ctor_name :: "registry \<Rightarrow> hstate \<Rightarrow> var \<Rightarrow> string \<Rightarrow> hstate" where
  "ctor_name r st this name = storeAddress r (set_address st this 0) this name"

definition ctor_copy :: "registry \<Rightarrow> hstate \<Rightarrow> var \<Rightarrow> var \<Rightarrow> error + hstate" where
  "ctor_copy r st this headerName = copyAddress r (set_address st this 0) this headerName"

definition ctor_move :: "hstate \<Rightarrow> var \<Rightarrow> var \<Rightarrow> hstate" where
  "ctor_move st this goner = moveAddress (set_address st this 0) this goner"

definition assign_name :: "registry \<Rightarrow> hstate \<Rightarrow> var \<Rightarrow> string \<Rightarrow> hstate" where
  "assign_name r st this name = storeAddress r (resetAddress r st this) this name"

definition assign_copy :: "registry \<Rightarrow> hstate \<Rightarrow> var \<Rightarrow> var \<Rightarrow> error + hstate" where
  "assign_copy r st this headerName = copyAddress r (resetAddress r st this) this headerName"

definition assign_move :: "registry \<Rightarrow> hstate \<Rightarrow> var \<Rightarrow> var \<Rightarrow> hstate" where
  "assign_move r st this goner = moveAddress (resetAddress r st this) this goner"

definition dtor :: "registry \<Rightarrow> hstate \<Rightarrow> var \<Rightarrow> hstate" where
  "dtor r st this = resetAddress r st this"

subsection \<open>Comparison\<close>

text \<open>Both operands of a comparison of contents are dereferenced, the left one first.\<close>

definition on_contents ::
  "(string \<Rightarrow> string \<Rightarrow> 'a) \<Rightarrow> error + string \<Rightarrow> error + string \<Rightarrow> error + 'a" where
  "on_contents f x y =
     (case x of Inl e \<Rightarrow> Inl e
      | Inr s \<Rightarrow> (case y of Inl e \<Rightarrow> Inl e | Inr t \<Rightarrow> Inr (f s t)))"

definition negate :: "error + bool \<Rightarrow> error + bool" where
  "negate x = (case x of Inl e \<Rightarrow> Inl e | Inr b \<Rightarrow> Inr (\<not> b))"

definition op_eq :: "registry \<Rightarrow> hstate \<Rightarrow> var \<Rightarrow> var \<Rightarrow> error + bool" where
  "op_eq r st this headerName =
     (if address st this = address st headerName then Inr True
      else on_contents (=) (get r st this) (get r st headerName))"

definition op_ne :: "registry \<Rightarrow> hstate \<Rightarrow> var \<Rightarrow> var \<Rightarrow> error + bool" where
  "op_ne r st this headerName = negate (op_eq r st this headerName)"

definition op_gt :: "registry \<Rightarrow> hstate \<Rightarrow> var \<Rightarrow> var \<Rightarrow> error + bool" where
  "op_gt r st this headerName =
     (if \<not> isAllocated r st this \<and> \<not> isAllocated r st headerName
      then Inr (address st this > address st headerName)
      else on_contents (\<lambda>s t. s > t) (get r st this) (get r st headerName))"

definition op_lt :: "registry \<Rightarrow> hstate \<Rightarrow> var \<Rightarrow> var \<Rightarrow> error + bool" where
  "op_lt r st this headerName =
     (if \<not> isAllocated r st this \<and> \<not> isAllocated r st headerName
      then Inr (address st this < address st headerName)
      else on_contents (\<lambda>s t. s < t) (get r st this) (get r st headerName))"

definition op_ge :: "registry \<Rightarrow> hstate \<Rightarrow> var \<Rightarrow> var \<Rightarrow> error + bool" where
  "op_ge r st this headerName = negate (op_lt r st this headerName)"

definition op_le :: "registry \<Rightarrow> hstate \<Rightarrow> var \<Rightarrow> var \<Rightarrow> error + bool" where
  "op_le r st this headerName = negate (op_gt r st this headerName)"

subsection \<open>Accessors and hashing\<close>

definition isCommonName :: "registry \<Rightarrow> hstate \<Rightarrow> var \<Rightarrow> bool" where
  "isCommonName r st this = (address st this \<noteq> 0 \<and> \<not> isAllocated r st this)"

text \<open>\<^verbatim>\<open>size()\<close> casts the length to \<^verbatim>\<open>uint32_t\<close>.\<close>

definition size_u32 :: "registry \<Rightarrow> hstate \<Rightarrow> var \<Rightarrow> error + 32 word" where
  "size_u32 r st this =
     (case deref r st (address st this) of
        Inl e \<Rightarrow> Inl e
      | Inr s \<Rightarrow> Inr (of_nat (length s)))"

text \<open>\<^verbatim>\<open>data()\<close> and \<^verbatim>\<open>c_str()\<close> give the bytes of the string pointed at.\<close>

definition data :: "registry \<Rightarrow> hstate \<Rightarrow> var \<Rightarrow> error + string" where
  "data r st this = deref r st (address st this)"

definition c_str :: "registry \<Rightarrow> hstate \<Rightarrow> var \<Rightarrow> error + string" where
  "c_str r st this = deref r st (address st this)"

text \<open>
  \<^verbatim>\<open>std::hash<HPACKHeaderName>\<close> applies \<^verbatim>\<open>std::hash<std::string>\<close>, a parameter here,
  to \<^verbatim>\<open>get()\<close>.
\<close>

definition hash_HPACKHeaderName ::
  "(string \<Rightarrow> 'h) \<Rightarrow> registry \<Rightarrow> hstate \<Rightarrow> var \<Rightarrow> error + 'h" where
  "hash_HPACKHeaderName string_hash r st headerName =
     (case get r st headerName of Inl e \<Rightarrow> Inl e | Inr s \<Rightarrow> Inr (string_hash s))"

subsection \<open>The three states of the specification\<close>

text \<open>
  The specification speaks of a handle that is Empty, Borrowed or Owned. The class has
  no tag: the state is read off the address, as \<^verbatim>\<open>isAllocated\<close> does.
\<close>

datatype storage = Empty | Borrowed | Owned

definition storage_of :: "registry \<Rightarrow> hstate \<Rightarrow> var \<Rightarrow> storage" where
  "storage_of r st v =
     (if address st v = 0 then Empty
      else if isHeaderNameFromTable r (address st v) then Borrowed
      else Owned)"

text \<open>
  A handle is live when its address is null, in the table, or that of a string in the
  heap: it does not dangle. Two handles are unshared when they do not point at the same
  owned string.
\<close>

definition live :: "registry \<Rightarrow> hstate \<Rightarrow> var \<Rightarrow> bool" where
  "live r st v =
     (address st v = 0 \<or> isHeaderNameFromTable r (address st v)
      \<or> address st v \<in> fst ` set (heap st))"

definition unshared :: "registry \<Rightarrow> hstate \<Rightarrow> var \<Rightarrow> var \<Rightarrow> bool" where
  "unshared r st a b = (storage_of r st a = Owned \<longrightarrow> address st a \<noteq> address st b)"

text \<open>
  Modelled from the spec: a registry for concrete runs. Its table holds four names in
  alphabetical order, and a name is classified by looking its lowercase form up in the
  table; a name that is not found is \<open>HTTP_HEADER_OTHER\<close>.
\<close>

fun in_word_set :: "string list \<Rightarrow> string \<Rightarrow> nat option" where
  "in_word_set [] w = None"
| "in_word_set (s # ss) w = (if s = w then Some 0 else map_option Suc (in_word_set ss w))"

definition table_hash :: "string list \<Rightarrow> string \<Rightarrow> HTTPHeaderCode" where
  "table_hash names name =
     (case in_word_set names (lowercase name) of
        None \<Rightarrow> HTTP_HEADER_OTHER
      | Some i \<Rightarrow> HTTP_HEADER_COMMON i)"

definition sample_names :: "string list" where
  "sample_names = [''accept'', ''content-length'', ''host'', ''user-agent'']"

definition sample_registry :: registry where
  "sample_registry =
     \<lparr>tbl_base = 4096, tbl = sample_names, HTTPCommonHeaders_hash = table_hash sample_names\<rparr>"

definition st0 :: hstate where
  "st0 = \<lparr>address = (\<lambda>_. 0), heap = []\<rparr>"

text \<open>Three handles of the sample table: two common names and a custom one.\<close>

definition st_mixed :: hstate where
  "st_mixed =
     ctor_name sample_registry
       (ctor_name sample_registry (ctor_name sample_registry st0 2 ''Accept'') 3 ''Host'')
       4 ''X-Foo''"

text \<open>Two custom handles with the same content in two strings of the heap.\<close>

definition st_pair :: hstate where
  "st_pair =
     ctor_name sample_registry (ctor_name sample_registry st0 2 ''X-Foo'') 3 ''x-foo''"

subsection \<open>The states the class can reach\<close>

text \<open>
  A state is consistent when no handle dangles and no two objects point at the same
  owned string. The reachable states are those the public operations produce from the
  state with no object and an empty heap.
\<close>

definition consistent :: "registry \<Rightarrow> hstate \<Rightarrow> bool" where
  "consistent r st = ((\<forall>v. live r st v) \<and> (\<forall>v w. v \<noteq> w \<longrightarrow> unshared r st v w))"

inductive reachable :: "registry \<Rightarrow> hstate \<Rightarrow> bool" for r :: registry where
  start: "reachable r st0"
| default_constructed: "reachable r st \<Longrightarrow> reachable r (ctor_default st this)"
| name_constructed: "reachable r st \<Longrightarrow> reachable r (ctor_name r st this name)"
| copy_constructed:
    "reachable r st \<Longrightarrow> ctor_copy r st this headerName = Inr st' \<Longrightarrow> reachable r st'"
| move_constructed: "reachable r st \<Longrightarrow> reachable r (ctor_move st this goner)"
| name_assigned: "reachable r st \<Longrightarrow> reachable r (assign_name r st this name)"
| copy_assigned:
    "reachable r st \<Longrightarrow> assign_copy r st this headerName = Inr st' \<Longrightarrow> reachable r st'"
| move_assigned: "reachable r st \<Longrightarrow> reachable r (assign_move r st this goner)"
| destroyed: "reachable r st \<Longrightarrow> reachable r (dtor r st this)"

section \<open>Auxiliary facts\<close>

subsection \<open>The table, the allocator and the heap\<close>

lemma in_word_set_Some: "in_word_set ss w = Some i \<Longrightarrow> i < length ss \<and> ss ! i = w"
  by (induction ss arbitrary: i) (auto split: if_splits)

lemma in_word_set_None: "in_word_set ss w = None \<longleftrightarrow> w \<notin> set ss"
  by (induction ss) auto

lemma fold_max_ge: "n \<le> fold max xs (n::nat)"
proof (induction xs arbitrary: n)
  case Nil then show ?case by simp
next
  case (Cons x xs)
  have "n \<le> max x n" by simp
  also have "\<dots> \<le> fold max xs (max x n)" by (rule Cons.IH)
  finally show ?case by simp
qed

lemma fold_max_mem: "x \<in> set xs \<Longrightarrow> x \<le> fold max xs (n::nat)"
proof (induction xs arbitrary: n)
  case Nil then show ?case by simp
next
  case (Cons y ys)
  show ?case
  proof (cases "x = y")
    case True
    have "max y n \<le> fold max ys (max y n)" by (rule fold_max_ge)
    with True show ?thesis by simp
  next
    case False
    with Cons show ?thesis by simp
  qed
qed

lemma fresh_addr_not_null: "fresh_addr r st \<noteq> 0"
  by (simp add: fresh_addr_def)

lemma fresh_addr_not_table: "\<not> isHeaderNameFromTable r (fresh_addr r st)"
  using fold_max_ge [of "tbl_base r + length (tbl r)" "map fst (heap st)"]
  by (simp add: fresh_addr_def isHeaderNameFromTable_def)

lemma fresh_addr_not_heap: "fresh_addr r st \<notin> fst ` set (heap st)"
proof
  assume "fresh_addr r st \<in> fst ` set (heap st)"
  then have "fresh_addr r st \<in> set (map fst (heap st))" by simp
  then have "fresh_addr r st \<le> fold max (map fst (heap st)) (tbl_base r + length (tbl r))"
    by (rule fold_max_mem)
  then show False by (simp add: fresh_addr_def)
qed

lemma fresh_addr_set_address: "fresh_addr r (set_address st v a) = fresh_addr r st"
  by (simp add: fresh_addr_def set_address_def)

lemma address_set_address: "address (set_address st v a) w = (if w = v then a else address st w)"
  by (simp add: set_address_def)

lemma heap_set_address: "heap (set_address st v a) = heap st"
  by (simp add: set_address_def)

lemma deref_set_address: "deref r (set_address st v a) p = deref r st p"
  by (simp add: deref_def set_address_def)

lemma deref_ok_cases:
  "deref r st p = Inr s \<Longrightarrow>
     p \<noteq> 0 \<and> (isHeaderNameFromTable r p \<or> p \<in> fst ` set (heap st))"
  by (auto simp: deref_def split: if_splits option.splits dest: map_of_SomeD intro: rev_image_eqI)

lemma deref_ok_not_fresh: "deref r st p = Inr s \<Longrightarrow> p \<noteq> fresh_addr r st"
  using deref_ok_cases [of r st p s] fresh_addr_not_table [of r st] fresh_addr_not_heap [of r st]
  by auto

lemma deref_new_string_fresh: "deref r (snd (new_string r st s)) (fresh_addr r st) = Inr s"
  using fresh_addr_not_table [of r st] fresh_addr_not_null [of r st]
  by (simp add: deref_def new_string_def Let_def)

lemma deref_new_string_other:
  "p \<noteq> fresh_addr r st \<Longrightarrow> deref r (snd (new_string r st s)) p = deref r st p"
  by (simp add: deref_def new_string_def Let_def)

lemma fst_new_string: "fst (new_string r st s) = fresh_addr r st"
  by (simp add: new_string_def Let_def)

lemma address_new_string: "address (snd (new_string r st s)) = address st"
  by (simp add: new_string_def Let_def)

lemma heap_new_string: "heap (snd (new_string r st s)) = (fresh_addr r st, s) # heap st"
  by (simp add: new_string_def Let_def)

lemma map_of_delete: "map_of (filter (\<lambda>kv. fst kv \<noteq> p) h) q = (if q = p then None else map_of h q)"
  by (induction h) auto

lemma deref_delete_string_other:
  "q \<noteq> p \<Longrightarrow> deref r (delete_string st p) q = deref r st q"
  by (simp add: deref_def delete_string_def map_of_delete)

lemma live_deref: "live r st v \<Longrightarrow> address st v \<noteq> 0 \<Longrightarrow> \<exists>s. get r st v = Inr s"
  by (auto simp: live_def get_def deref_def split: option.splits
      dest: weak_map_of_SomeI simp: map_of_eq_None_iff)

subsection \<open>Construction from a name\<close>

lemma hash_common:
  "registry_ok r \<Longrightarrow> HTTPCommonHeaders_hash r name = HTTP_HEADER_COMMON i \<Longrightarrow>
     i < length (tbl r) \<and> tbl r ! i = lowercase name"
  by (simp add: registry_ok_def)

lemma registry_ok_base: "registry_ok r \<Longrightarrow> 0 < tbl_base r"
  by (simp add: registry_ok_def)

lemma hash_code_cases:
  obtains (other) "HTTPCommonHeaders_hash r name = HTTP_HEADER_NONE
                 \<or> HTTPCommonHeaders_hash r name = HTTP_HEADER_OTHER"
  | (common) i where "HTTPCommonHeaders_hash r name = HTTP_HEADER_COMMON i"
  by (cases "HTTPCommonHeaders_hash r name") auto

lemma storeAddress_other:
  "HTTPCommonHeaders_hash r name = HTTP_HEADER_NONE
   \<or> HTTPCommonHeaders_hash r name = HTTP_HEADER_OTHER \<Longrightarrow>
     storeAddress r st v name =
       set_address (snd (new_string r st (lowercase name))) v (fresh_addr r st)"
  by (auto simp: storeAddress_def Let_def lowercase_def new_string_def)

lemma storeAddress_common:
  "HTTPCommonHeaders_hash r name = HTTP_HEADER_COMMON i \<Longrightarrow>
     storeAddress r st v name = set_address st v (tbl_base r + i)"
  by (simp add: storeAddress_def Let_def getPointerToHeaderName_def)

lemma deref_table:
  "0 < tbl_base r \<Longrightarrow> i < length (tbl r) \<Longrightarrow> deref r st (tbl_base r + i) = Inr (tbl r ! i)"
  by (simp add: deref_def isHeaderNameFromTable_def)

lemma get_storeAddress:
  assumes "registry_ok r"
  shows "get r (storeAddress r st v name) v = Inr (lowercase name)"
proof (cases rule: hash_code_cases [of r name])
  case (common i)
  from hash_common [OF assms common] registry_ok_base [OF assms] show ?thesis
    by (simp add: storeAddress_common [OF common] get_def address_set_address
        deref_set_address deref_table)
next
  case other
  show ?thesis
    by (simp add: storeAddress_other [OF other] get_def address_set_address deref_set_address
        deref_new_string_fresh)
qed

lemma deref_storeAddress_frame:
  assumes "deref r st p = Inr s"
  shows "deref r (storeAddress r st v name) p = Inr s"
proof (cases rule: hash_code_cases [of r name])
  case (common i)
  from assms show ?thesis
    by (simp add: storeAddress_common [OF common] deref_set_address)
next
  case other
  from deref_ok_not_fresh [OF assms] assms show ?thesis
    by (simp add: storeAddress_other [OF other] deref_set_address deref_new_string_other)
qed

lemma address_storeAddress_other:
  "w \<noteq> v \<Longrightarrow> address (storeAddress r st v name) w = address st w"
  by (cases rule: hash_code_cases [of r name])
    (simp_all add: storeAddress_common storeAddress_other address_set_address
      address_new_string)

lemma storage_storeAddress:
  assumes "registry_ok r"
  shows "storage_of r (storeAddress r st v name) v =
           (if HTTPCommonHeaders_hash r name = HTTP_HEADER_NONE
             \<or> HTTPCommonHeaders_hash r name = HTTP_HEADER_OTHER
            then Owned else Borrowed)"
proof (cases rule: hash_code_cases [of r name])
  case (common i)
  from hash_common [OF assms common] registry_ok_base [OF assms] show ?thesis
    by (simp add: storeAddress_common [OF common] storage_of_def address_set_address
        isHeaderNameFromTable_def common)
next
  case other
  show ?thesis
    using fresh_addr_not_null [of r st] fresh_addr_not_table [of r st] other
    by (simp add: storeAddress_other [OF other] storage_of_def address_set_address)
qed

subsection \<open>Facts about the operations\<close>

lemma op_eq_live:
  assumes "get r st a = Inr sa" and "get r st b = Inr sb"
  shows "op_eq r st a b = Inr (sa = sb)"
  using assms by (auto simp: op_eq_def on_contents_def get_def)

lemma get_ctor_name_frame:
  assumes "w \<noteq> v" and "get r st w = Inr s"
  shows "get r (ctor_name r st v name) w = Inr s"
  using assms
  by (simp add: ctor_name_def get_def address_storeAddress_other address_set_address
      deref_storeAddress_frame deref_set_address)

lemma strict_sorted_nth_less_iff:
  fixes xs :: "('a::linorder) list"
  assumes "sorted_wrt (<) xs" and "i < length xs" and "j < length xs"
  shows "xs ! i < xs ! j \<longleftrightarrow> i < j"
proof
  assume "i < j"
  with assms show "xs ! i < xs ! j" by (simp add: sorted_wrt_nth_less)
next
  assume l: "xs ! i < xs ! j"
  show "i < j"
  proof (rule ccontr)
    assume "\<not> i < j"
    then consider "j < i" | "j = i" by linarith
    then show False
    proof cases
      case 1
      with assms have "xs ! j < xs ! i" by (simp add: sorted_wrt_nth_less)
      with l show False by simp
    next
      case 2
      with l show False by simp
    qed
  qed
qed

lemma get_borrowed:
  assumes "storage_of r st v = Borrowed"
  shows "get r st v = Inr (tbl r ! (address st v - tbl_base r))
       \<and> tbl_base r \<le> address st v \<and> address st v - tbl_base r < length (tbl r)"
  using assms
  by (auto simp: storage_of_def get_def deref_def isHeaderNameFromTable_def split: if_splits)

lemma storage_isAllocated: "isAllocated r st v \<longleftrightarrow> storage_of r st v = Owned"
  by (simp add: isAllocated_def storage_of_def)

lemma live_get:
  assumes "storage_of r st v \<noteq> Empty" and "live r st v"
  shows "\<exists>s. get r st v = Inr s"
  using assms live_deref [of r st v] by (auto simp: storage_of_def split: if_splits)

lemma op_lt_contents:
  assumes sorted: "sorted_wrt (<) (tbl r)"
    and a: "get r st a = Inr sa" and b: "get r st b = Inr sb"
  shows "op_lt r st a b = Inr (sa < sb)"
proof (cases "storage_of r st a = Owned \<or> storage_of r st b = Owned")
  case True
  then show ?thesis
    using a b by (auto simp: op_lt_def storage_isAllocated on_contents_def)
next
  case False
  from a have "address st a \<noteq> 0" by (auto simp: get_def deref_def split: if_splits)
  with False have sa: "storage_of r st a = Borrowed"
    by (auto simp: storage_of_def split: if_splits)
  from b have "address st b \<noteq> 0" by (auto simp: get_def deref_def split: if_splits)
  with False have sb: "storage_of r st b = Borrowed"
    by (auto simp: storage_of_def split: if_splits)
  define i where "i = address st a - tbl_base r"
  define j where "j = address st b - tbl_base r"
  from get_borrowed [OF sa] a have ia: "sa = tbl r ! i" "i < length (tbl r)"
    "address st a = tbl_base r + i" by (auto simp: i_def)
  from get_borrowed [OF sb] b have jb: "sb = tbl r ! j" "j < length (tbl r)"
    "address st b = tbl_base r + j" by (auto simp: j_def)
  have "op_lt r st a b = Inr (address st a < address st b)"
    using sa sb by (simp add: op_lt_def storage_isAllocated)
  also have "address st a < address st b \<longleftrightarrow> i < j" using ia jb by simp
  also have "\<dots> \<longleftrightarrow> sa < sb"
    using strict_sorted_nth_less_iff [OF sorted ia(2) jb(2)] ia(1) jb(1) by simp
  finally show ?thesis .
qed

lemma op_gt_contents:
  assumes sorted: "sorted_wrt (<) (tbl r)"
    and a: "get r st a = Inr sa" and b: "get r st b = Inr sb"
  shows "op_gt r st a b = Inr (sb < sa)"
proof (cases "storage_of r st a = Owned \<or> storage_of r st b = Owned")
  case True
  then show ?thesis
    using a b by (auto simp: op_gt_def storage_isAllocated on_contents_def)
next
  case False
  from a have "address st a \<noteq> 0" by (auto simp: get_def deref_def split: if_splits)
  with False have sa: "storage_of r st a = Borrowed"
    by (auto simp: storage_of_def split: if_splits)
  from b have "address st b \<noteq> 0" by (auto simp: get_def deref_def split: if_splits)
  with False have sb: "storage_of r st b = Borrowed"
    by (auto simp: storage_of_def split: if_splits)
  define i where "i = address st a - tbl_base r"
  define j where "j = address st b - tbl_base r"
  from get_borrowed [OF sa] a have ia: "sa = tbl r ! i" "i < length (tbl r)"
    "address st a = tbl_base r + i" by (auto simp: i_def)
  from get_borrowed [OF sb] b have jb: "sb = tbl r ! j" "j < length (tbl r)"
    "address st b = tbl_base r + j" by (auto simp: j_def)
  have "op_gt r st a b = Inr (address st b < address st a)"
    using sa sb by (simp add: op_gt_def storage_isAllocated)
  also have "address st b < address st a \<longleftrightarrow> j < i" using ia jb by simp
  also have "\<dots> \<longleftrightarrow> sb < sa"
    using strict_sorted_nth_less_iff [OF sorted jb(2) ia(2)] ia(1) jb(1) by simp
  finally show ?thesis .
qed

lemma storage_ctor_name:
  "registry_ok r \<Longrightarrow>
     storage_of r (ctor_name r st v name) v =
       (if HTTPCommonHeaders_hash r name = HTTP_HEADER_NONE
         \<or> HTTPCommonHeaders_hash r name = HTTP_HEADER_OTHER
        then Owned else Borrowed)"
  by (simp add: ctor_name_def storage_storeAddress)

lemma get_ctor_name: "registry_ok r \<Longrightarrow> get r (ctor_name r st v name) v = Inr (lowercase name)"
  by (simp add: ctor_name_def get_storeAddress)

lemma address_ctor_name_frame: "w \<noteq> v \<Longrightarrow> address (ctor_name r st v name) w = address st w"
  by (simp add: ctor_name_def address_storeAddress_other address_set_address)

lemma storage_ctor_name_frame:
  "w \<noteq> v \<Longrightarrow> storage_of r (ctor_name r st v name) w = storage_of r st w"
  by (simp add: storage_of_def address_ctor_name_frame)

lemma live_iff_get:
  "live r st v \<longleftrightarrow> address st v = 0 \<or> (\<exists>s. get r st v = Inr s)"
proof (cases "address st v = 0")
  case True
  then show ?thesis by (simp add: live_def)
next
  case False
  show ?thesis
  proof
    assume "live r st v"
    with False live_deref [of r st v] show "address st v = 0 \<or> (\<exists>s. get r st v = Inr s)"
      by simp
  next
    assume "address st v = 0 \<or> (\<exists>s. get r st v = Inr s)"
    with False obtain s where "deref r st (address st v) = Inr s" by (auto simp: get_def)
    from deref_ok_cases [OF this] show "live r st v" by (auto simp: live_def)
  qed
qed

lemma live_get_ok: "get r st v = Inr s \<Longrightarrow> live r st v"
  by (auto simp: live_iff_get)

lemma storage_Empty: "storage_of r st v = Empty \<longleftrightarrow> address st v = 0"
  by (simp add: storage_of_def)

lemma get_Empty: "storage_of r st v = Empty \<Longrightarrow> get r st v = Inl NullDereference"
  by (simp add: storage_Empty get_def deref_def)

lemma get_ok_not_Empty: "get r st v = Inr s \<Longrightarrow> storage_of r st v \<noteq> Empty"
  by (auto simp: storage_Empty get_def deref_def split: if_splits)

lemma hash_get:
  "get r st v = Inr s \<Longrightarrow> hash_HPACKHeaderName H r st v = Inr (H s)"
  by (simp add: hash_HPACKHeaderName_def)

lemma storage_set_address_frame:
  "w \<noteq> v \<Longrightarrow> storage_of r (set_address st v a) w = storage_of r st w"
  by (simp add: storage_of_def address_set_address)

lemma get_set_address_frame: "w \<noteq> v \<Longrightarrow> get r (set_address st v a) w = get r st w"
  by (simp add: get_def address_set_address deref_set_address)

lemma get_set_address_self: "get r (set_address st v a) v = deref r st a"
  by (simp add: get_def address_set_address deref_set_address)

lemma live_set_address_frame: "w \<noteq> v \<Longrightarrow> live r (set_address st v a) w = live r st w"
  by (simp add: live_def address_set_address heap_set_address)

lemma address_resetAddress:
  "address (resetAddress r st v) w = (if w = v then 0 else address st w)"
  by (simp add: resetAddress_def Let_def address_set_address delete_string_def)

lemma heap_resetAddress:
  "heap (resetAddress r st v) =
     (if storage_of r st v = Owned then filter (\<lambda>kv. fst kv \<noteq> address st v) (heap st)
      else heap st)"
  by (simp add: resetAddress_def Let_def heap_set_address delete_string_def storage_isAllocated)

lemma deref_resetAddress:
  assumes "storage_of r st v = Owned \<longrightarrow> q \<noteq> address st v"
  shows "deref r (resetAddress r st v) q = deref r st q"
  using assms
  by (auto simp: resetAddress_def Let_def deref_set_address storage_isAllocated
      deref_delete_string_other)

lemma storage_resetAddress_frame:
  "w \<noteq> v \<Longrightarrow> storage_of r (resetAddress r st v) w = storage_of r st w"
  by (simp add: storage_of_def address_resetAddress)

lemma get_resetAddress_frame:
  assumes "w \<noteq> v" and "unshared r st v w"
  shows "get r (resetAddress r st v) w = get r st w"
  using assms deref_resetAddress [of r st v "address st w"]
  by (auto simp: get_def address_resetAddress unshared_def)

lemma storage_cases:
  obtains "storage_of r st v = Empty" | "storage_of r st v = Borrowed" | "storage_of r st v = Owned"
  by (cases "storage_of r st v") auto

lemma copyAddress_not_owned:
  "storage_of r st src \<noteq> Owned \<Longrightarrow>
     copyAddress r st this src = Inr (set_address st this (address st src))"
  by (simp add: copyAddress_def storage_isAllocated)

lemma copyAddress_owned:
  "storage_of r st src = Owned \<Longrightarrow> get r st src = Inr s \<Longrightarrow>
     copyAddress r st this src =
       Inr (set_address (snd (new_string r st s)) this (fresh_addr r st))"
  by (simp add: copyAddress_def storage_isAllocated new_string_def Let_def)

lemma storage_of_address:
  "address st' v = address st w \<Longrightarrow> storage_of r st' v = storage_of r st w"
  by (simp add: storage_of_def)

lemma storage_fresh:
  "address st' v = fresh_addr r st \<Longrightarrow> storage_of r st' v = Owned"
  using fresh_addr_not_null [of r st] fresh_addr_not_table [of r st]
  by (simp add: storage_of_def)

text \<open>What \<^verbatim>\<open>copyAddress\<close> does to a target other than its live source.\<close>

lemma copyAddress_props:
  assumes ne: "this \<noteq> src" and l: "live r st src"
  shows "\<exists>st'. copyAddress r st this src = Inr st'
      \<and> storage_of r st' this = storage_of r st src
      \<and> get r st' this = get r st src
      \<and> address st' src = address st src \<and> get r st' src = get r st src
      \<and> (storage_of r st src \<noteq> Owned \<longrightarrow>
            address st' this = address st src \<and> heap st' = heap st)
      \<and> (storage_of r st src = Owned \<longrightarrow>
            address st' this \<noteq> address st src
          \<and> address st' this \<notin> fst ` set (heap st)
          \<and> (\<exists>s. get r st src = Inr s \<and> heap st' = (address st' this, s) # heap st))"
proof (cases "storage_of r st src = Owned")
  case False
  let ?st' = "set_address st this (address st src)"
  have "copyAddress r st this src = Inr ?st'" using False by (rule copyAddress_not_owned)
  moreover have "storage_of r ?st' this = storage_of r st src"
    by (rule storage_of_address) (simp add: address_set_address)
  moreover have "get r ?st' this = get r st src"
    by (simp add: get_def address_set_address deref_set_address)
  moreover have "address ?st' src = address st src" using ne by (simp add: address_set_address)
  moreover have "get r ?st' src = get r st src" using ne by (simp add: get_set_address_frame)
  moreover have "address ?st' this = address st src" by (simp add: address_set_address)
  moreover have "heap ?st' = heap st" by (simp add: heap_set_address)
  ultimately show ?thesis using False by simp
next
  case True
  then have "storage_of r st src \<noteq> Empty" by simp
  from live_get [OF this l] obtain s where g: "get r st src = Inr s" by auto
  let ?p = "fresh_addr r st"
  let ?st' = "set_address (snd (new_string r st s)) this ?p"
  have d: "deref r st (address st src) = Inr s" using g by (simp add: get_def)
  have np: "address st src \<noteq> ?p" using d by (rule deref_ok_not_fresh)
  have "copyAddress r st this src = Inr ?st'" using True g by (rule copyAddress_owned)
  moreover have a: "address ?st' this = ?p" by (simp add: address_set_address)
  moreover have "storage_of r ?st' this = storage_of r st src"
    using storage_fresh [OF a] True by simp
  moreover have "get r ?st' this = get r st src"
    by (simp add: get_def address_set_address deref_set_address deref_new_string_fresh d)
  moreover have "address ?st' src = address st src"
    using ne by (simp add: address_set_address address_new_string)
  moreover have "get r ?st' src = get r st src"
    using ne np by (simp add: get_def address_set_address address_new_string
        deref_set_address deref_new_string_other)
  moreover have "?p \<notin> fst ` set (heap st)" by (rule fresh_addr_not_heap)
  moreover have "heap ?st' = (?p, s) # heap st"
    by (simp add: heap_set_address heap_new_string)
  ultimately show ?thesis using True g np by auto
qed

lemma live_resetAddress_frame:
  assumes "w \<noteq> v" and "unshared r st v w" and "live r st w"
  shows "live r (resetAddress r st v) w"
  using assms get_resetAddress_frame [OF assms(1,2)]
  by (simp add: live_iff_get address_resetAddress)

lemma address_moveAddress:
  "address (moveAddress st this goner) w =
     (if w = goner then 0 else if w = this then address st goner else address st w)"
  by (simp add: moveAddress_def Let_def address_set_address)

lemma heap_moveAddress: "heap (moveAddress st this goner) = heap st"
  by (simp add: moveAddress_def Let_def heap_set_address)

lemma deref_heap_cong: "heap st' = heap st \<Longrightarrow> deref r st' p = deref r st p"
  by (simp add: deref_def)

lemma set_address_idem: "address st v = a \<Longrightarrow> set_address st v a = st"
  by (auto simp: set_address_def)

lemma resetAddress_self_copy: "copyAddress r (resetAddress r st a) a a = Inr (resetAddress r st a)"
proof -
  have z: "address (resetAddress r st a) a = 0" by (simp add: address_resetAddress)
  then have "storage_of r (resetAddress r st a) a \<noteq> Owned" by (simp add: storage_of_def)
  from copyAddress_not_owned [OF this] z show ?thesis by (simp add: set_address_idem)
qed

lemma resetAddress_self_move: "moveAddress (resetAddress r st a) a a = resetAddress r st a"
proof -
  have z: "address (resetAddress r st a) a = 0" by (simp add: address_resetAddress)
  then show ?thesis by (simp add: moveAddress_def Let_def set_address_idem)
qed

lemma accessors_eq_get:
  "data r st v = get r st v" "c_str r st v = get r st v"
  "size_u32 r st v = (case get r st v of Inl e \<Rightarrow> Inl e | Inr s \<Rightarrow> Inr (of_nat (length s)))"
  by (simp_all add: data_def c_str_def size_u32_def get_def)

lemma get_live_cases:
  assumes "live r st v"
  shows "storage_of r st v = Empty \<and> get r st v = Inl NullDereference
       \<or> storage_of r st v \<noteq> Empty \<and> (\<exists>s. get r st v = Inr s)"
  using assms get_Empty [of r st v] live_get [of r st v] by blast

lemma ctor_copy_total:
  assumes "live r st v"
  shows "\<exists>st'. ctor_copy r st u v = Inr st'"
proof (cases "u = v")
  case True
  have "storage_of r (set_address st v 0) v \<noteq> Owned"
    by (simp add: storage_of_def address_set_address)
  from copyAddress_not_owned [OF this] True show ?thesis by (simp add: ctor_copy_def)
next
  case False
  with assms have "live r (set_address st u 0) v" by (simp add: live_set_address_frame)
  from copyAddress_props [OF False this] show ?thesis by (auto simp: ctor_copy_def)
qed

lemma assign_copy_total:
  assumes "live r st v" and "u = v \<or> unshared r st u v"
  shows "\<exists>st'. assign_copy r st u v = Inr st'"
proof (cases "u = v")
  case True
  then show ?thesis by (simp add: assign_copy_def resetAddress_self_copy)
next
  case False
  with assms have "live r (resetAddress r st u) v" by (simp add: live_resetAddress_frame)
  from copyAddress_props [OF False this] show ?thesis by (auto simp: assign_copy_def)
qed

lemma op_eq_error_iff:
  assumes "live r st a" and "live r st b"
  shows "(\<exists>e. op_eq r st a b = Inl e) \<longleftrightarrow>
           (storage_of r st a = Empty) \<noteq> (storage_of r st b = Empty)"
proof (cases "address st a = address st b")
  case True
  then show ?thesis by (simp add: op_eq_def storage_Empty)
next
  case False
  with get_live_cases [OF assms(1)] get_live_cases [OF assms(2)] show ?thesis
    by (auto simp: op_eq_def on_contents_def storage_Empty)
qed

lemma op_lt_error_iff:
  assumes "live r st a" and "live r st b"
  shows "(\<exists>e. op_lt r st a b = Inl e) \<longleftrightarrow>
           storage_of r st a = Empty \<and> storage_of r st b = Owned
         \<or> storage_of r st a = Owned \<and> storage_of r st b = Empty"
  using get_live_cases [OF assms(1)] get_live_cases [OF assms(2)]
  by (auto simp: op_lt_def on_contents_def storage_isAllocated)

lemma op_gt_error_iff:
  assumes "live r st a" and "live r st b"
  shows "(\<exists>e. op_gt r st a b = Inl e) \<longleftrightarrow>
           storage_of r st a = Empty \<and> storage_of r st b = Owned
         \<or> storage_of r st a = Owned \<and> storage_of r st b = Empty"
  using get_live_cases [OF assms(1)] get_live_cases [OF assms(2)]
  by (auto simp: op_gt_def on_contents_def storage_isAllocated)

lemma compare_error_kind:
  assumes "live r st a" and "live r st b"
    and "op_eq r st a b = Inl e \<or> op_lt r st a b = Inl e \<or> op_gt r st a b = Inl e"
  shows "e = NullDereference"
  using assms(3) get_live_cases [OF assms(1)] get_live_cases [OF assms(2)]
  by (auto simp: op_eq_def op_lt_def op_gt_def on_contents_def split: if_splits)

lemma deref_not_InvalidState: "deref r st a \<noteq> Inl InvalidState"
  by (simp add: deref_def split: option.splits)

lemma accessors_not_InvalidState:
  "get r st v \<noteq> Inl InvalidState" "size_u32 r st v \<noteq> Inl InvalidState"
  "data r st v \<noteq> Inl InvalidState" "c_str r st v \<noteq> Inl InvalidState"
  using deref_not_InvalidState [of r st "address st v"]
  by (auto simp: get_def size_u32_def data_def c_str_def split: sum.splits)

subsection \<open>The sample table and its handles\<close>

lemma table_hash_ok:
  "0 < b \<Longrightarrow> registry_ok \<lparr>tbl_base = b, tbl = names, HTTPCommonHeaders_hash = table_hash names\<rparr>"
  by (auto simp: registry_ok_def table_hash_def split: option.splits dest: in_word_set_Some)

lemma sample_ok: "registry_ok sample_registry"
  unfolding sample_registry_def by (rule table_hash_ok) simp

lemma sample_tbl: "tbl sample_registry = [''accept'', ''content-length'', ''host'', ''user-agent'']"
  by (simp add: sample_registry_def sample_names_def)

lemma sample_sorted: "sorted_wrt (<) (tbl sample_registry)"
  by (simp add: sample_tbl)

lemma lowercase_Accept: "lowercase ''Accept'' = ''accept''"
  by code_simp

lemma lowercase_Host: "lowercase ''Host'' = ''host''"
  by code_simp

lemma lowercase_x_foo: "lowercase ''x-foo'' = ''x-foo''"
  by code_simp

lemma lowercase_X_Custom_Thing: "lowercase ''X-Custom-Thing'' = ''x-custom-thing''"
  by code_simp

lemma lowercase_HOST: "lowercase ''HOST'' = ''host''"
  by code_simp

lemma lowercase_host: "lowercase ''host'' = ''host''"
  by code_simp

lemma lowercase_X_Bar: "lowercase ''X-Bar'' = ''x-bar''"
  by code_simp

lemma lowercase_Content_Length: "lowercase ''Content-Length'' = ''content-length''"
  by code_simp

lemma lowercase_X_Foo: "lowercase ''X-Foo'' = ''x-foo''"
  by code_simp

lemma sample_hash:
  "HTTPCommonHeaders_hash sample_registry ''Accept'' = HTTP_HEADER_COMMON 0"
  "HTTPCommonHeaders_hash sample_registry ''Content-Length'' = HTTP_HEADER_COMMON 1"
  "HTTPCommonHeaders_hash sample_registry ''Host'' = HTTP_HEADER_COMMON 2"
  "HTTPCommonHeaders_hash sample_registry ''HOST'' = HTTP_HEADER_COMMON 2"
  "HTTPCommonHeaders_hash sample_registry ''host'' = HTTP_HEADER_COMMON 2"
  "HTTPCommonHeaders_hash sample_registry ''X-Foo'' = HTTP_HEADER_OTHER"
  "HTTPCommonHeaders_hash sample_registry ''x-foo'' = HTTP_HEADER_OTHER"
  "HTTPCommonHeaders_hash sample_registry ''X-Bar'' = HTTP_HEADER_OTHER"
  "HTTPCommonHeaders_hash sample_registry ''X-Custom-Thing'' = HTTP_HEADER_OTHER"
  by (simp_all add: sample_registry_def sample_names_def table_hash_def lowercase_Accept
      lowercase_Content_Length lowercase_Host lowercase_HOST lowercase_host lowercase_X_Foo
      lowercase_x_foo lowercase_X_Bar lowercase_X_Custom_Thing)

lemma st_mixed_get:
  "get sample_registry st_mixed 2 = Inr ''accept''"
  "get sample_registry st_mixed 3 = Inr ''host''"
  "get sample_registry st_mixed 4 = Inr ''x-foo''"
  by (simp_all add: st_mixed_def get_ctor_name get_ctor_name_frame sample_ok
      lowercase_Accept lowercase_Host lowercase_X_Foo)

lemma st_mixed_storage:
  "storage_of sample_registry st_mixed 2 = Borrowed"
  "storage_of sample_registry st_mixed 3 = Borrowed"
  "storage_of sample_registry st_mixed 4 = Owned"
  by (simp_all add: st_mixed_def storage_ctor_name storage_ctor_name_frame sample_ok
      sample_hash)

lemma st_mixed_live:
  "live sample_registry st_mixed 2"
  "live sample_registry st_mixed 3"
  "live sample_registry st_mixed 4"
  by (simp_all add: live_iff_get st_mixed_get)

lemma st_pair_get:
  "get sample_registry st_pair 2 = Inr ''x-foo''"
  "get sample_registry st_pair 3 = Inr ''x-foo''"
  by (simp_all add: st_pair_def get_ctor_name get_ctor_name_frame sample_ok
      lowercase_X_Foo lowercase_x_foo)

lemma st_pair_storage:
  "storage_of sample_registry st_pair 2 = Owned"
  "storage_of sample_registry st_pair 3 = Owned"
  by (simp_all add: st_pair_def storage_ctor_name storage_ctor_name_frame sample_ok
      sample_hash)

lemma st_pair_address: "address st_pair 2 \<noteq> address st_pair 3"
  by (simp add: st_pair_def ctor_name_def storeAddress_other sample_hash
      address_set_address address_new_string fresh_addr_def heap_new_string
      heap_set_address st0_def)

lemma st_mixed_empty:
  "storage_of sample_registry st_mixed 7 = Empty"
  "storage_of sample_registry st_mixed 8 = Empty"
  "live sample_registry st_mixed 7"
  "live sample_registry st_mixed 8"
  by (simp_all add: st_mixed_def storage_ctor_name_frame live_def address_ctor_name_frame
      storage_of_def st0_def)

subsection \<open>The operations keep the state consistent\<close>

lemma consistentI:
  assumes "\<And>v. live r st v" and "\<And>v w. v \<noteq> w \<Longrightarrow> unshared r st v w"
  shows "consistent r st"
  using assms by (simp add: consistent_def)

lemma consistent_live: "consistent r st \<Longrightarrow> live r st v"
  by (simp add: consistent_def)

lemma consistent_unshared: "consistent r st \<Longrightarrow> v \<noteq> w \<Longrightarrow> unshared r st v w"
  by (simp add: consistent_def)

lemma consistent_st0: "consistent r st0"
  by (simp add: consistent_def live_def unshared_def storage_of_def st0_def)

lemma live_address_not_fresh: "live r st v \<Longrightarrow> address st v \<noteq> fresh_addr r st"
  using fresh_addr_not_null [of r st] fresh_addr_not_table [of r st] fresh_addr_not_heap [of r st]
  unfolding live_def by metis

lemma consistent_set_not_owned:
  assumes c: "consistent r st" and a: "a = 0 \<or> isHeaderNameFromTable r a"
  shows "consistent r (set_address st v a)"
proof (rule consistentI)
  fix u
  show "live r (set_address st v a) u"
    using consistent_live [OF c, of u] a
    by (auto simp: live_def address_set_address heap_set_address)
next
  fix u w :: var
  assume "u \<noteq> w"
  from consistent_unshared [OF c this] a
  show "unshared r (set_address st v a) u w"
    using \<open>u \<noteq> w\<close>
    by (auto simp: unshared_def storage_of_def address_set_address split: if_splits)
qed

lemma consistent_new:
  assumes c: "consistent r st"
  shows "consistent r (set_address (snd (new_string r st s)) v (fresh_addr r st))"
proof (rule consistentI)
  fix u
  show "live r (set_address (snd (new_string r st s)) v (fresh_addr r st)) u"
    using consistent_live [OF c, of u]
    by (auto simp: live_def address_set_address heap_set_address heap_new_string
        address_new_string)
next
  fix u w :: var
  assume "u \<noteq> w"
  from consistent_unshared [OF c this] live_address_not_fresh [OF consistent_live [OF c], of u]
    live_address_not_fresh [OF consistent_live [OF c], of w]
  show "unshared r (set_address (snd (new_string r st s)) v (fresh_addr r st)) u w"
    using \<open>u \<noteq> w\<close> fresh_addr_not_null [of r st] fresh_addr_not_table [of r st]
    by (auto simp: unshared_def storage_of_def address_set_address address_new_string
        split: if_splits)
qed

lemma consistent_resetAddress:
  assumes c: "consistent r st"
  shows "consistent r (resetAddress r st v)"
proof (rule consistentI)
  fix u
  show "live r (resetAddress r st v) u"
  proof (cases "u = v")
    case True
    then show ?thesis by (simp add: live_def address_resetAddress)
  next
    case False
    then have "v \<noteq> u" by simp
    from live_resetAddress_frame [OF False consistent_unshared [OF c this] consistent_live [OF c]]
    show ?thesis .
  qed
next
  fix u w :: var
  assume "u \<noteq> w"
  from consistent_unshared [OF c this]
  show "unshared r (resetAddress r st v) u w"
    using \<open>u \<noteq> w\<close>
    by (auto simp: unshared_def storage_of_def address_resetAddress split: if_splits)
qed

lemma consistent_moveAddress:
  assumes c: "consistent r st"
  shows "consistent r (moveAddress st this goner)"
proof (rule consistentI)
  fix u
  show "live r (moveAddress st this goner) u"
    using consistent_live [OF c, of u] consistent_live [OF c, of goner]
    by (auto simp: live_def address_moveAddress heap_moveAddress)
next
  fix u w :: var
  assume "u \<noteq> w"
  from consistent_unshared [OF c, of goner w] consistent_unshared [OF c, of u goner]
    consistent_unshared [OF c this]
  show "unshared r (moveAddress st this goner) u w"
    using \<open>u \<noteq> w\<close>
    by (auto simp: unshared_def storage_of_def address_moveAddress split: if_splits)
qed

lemma consistent_storeAddress:
  assumes ok: "registry_ok r" and c: "consistent r st"
  shows "consistent r (storeAddress r st v name)"
proof (cases rule: hash_code_cases [of r name])
  case (common i)
  from hash_common [OF ok common] have "isHeaderNameFromTable r (tbl_base r + i)"
    by (simp add: isHeaderNameFromTable_def)
  then show ?thesis
    using c by (simp add: storeAddress_common [OF common] consistent_set_not_owned)
next
  case other
  show ?thesis
    using c by (simp add: storeAddress_other [OF other] consistent_new)
qed

lemma consistent_copyAddress:
  assumes c: "consistent r st" and r: "copyAddress r st this src = Inr st'"
  shows "consistent r st'"
proof (cases "storage_of r st src = Owned")
  case True
  then have "storage_of r st src \<noteq> Empty" by simp
  from live_get [OF this consistent_live [OF c]] obtain s where "get r st src = Inr s" by auto
  from copyAddress_owned [OF True this, of this] r c show ?thesis
    by (auto simp: consistent_new)
next
  case False
  then have "address st src = 0 \<or> isHeaderNameFromTable r (address st src)"
    by (auto simp: storage_of_def split: if_splits)
  from consistent_set_not_owned [OF c this, of this] copyAddress_not_owned [OF False, of this] r
  show ?thesis by simp
qed

text \<open>Every state the class can reach is consistent.\<close>

lemma reachable_consistent:
  assumes ok: "registry_ok r" and "reachable r st"
  shows "consistent r st"
  using assms(2)
proof (induction rule: reachable.induct)
  case start
  show ?case by (rule consistent_st0)
next
  case (default_constructed st this)
  then show ?case by (simp add: ctor_default_def consistent_set_not_owned)
next
  case (name_constructed st this name)
  then show ?case
    by (simp add: ctor_name_def consistent_storeAddress [OF ok] consistent_set_not_owned)
next
  case (copy_constructed st this headerName st')
  from copy_constructed.IH have "consistent r (set_address st this 0)"
    by (simp add: consistent_set_not_owned)
  from consistent_copyAddress [OF this] copy_constructed.hyps(2) show ?case
    by (simp add: ctor_copy_def)
next
  case (move_constructed st this goner)
  then show ?case
    by (simp add: ctor_move_def consistent_moveAddress consistent_set_not_owned)
next
  case (name_assigned st this name)
  then show ?case
    by (simp add: assign_name_def consistent_storeAddress [OF ok] consistent_resetAddress)
next
  case (copy_assigned st this headerName st')
  from copy_assigned.IH have "consistent r (resetAddress r st this)"
    by (rule consistent_resetAddress)
  from consistent_copyAddress [OF this] copy_assigned.hyps(2) show ?case
    by (simp add: assign_copy_def)
next
  case (move_assigned st this goner)
  then show ?case
    by (simp add: assign_move_def consistent_moveAddress consistent_resetAddress)
next
  case (destroyed st this)
  then show ?case by (simp add: dtor_def consistent_resetAddress)
qed

section \<open>The claims\<close>

subsection \<open>C1: equality of handles is equality of the lowercased names\<close>

text \<open>
  C1. With a registry that keeps its contract, two handles constructed from the texts
  \<open>N1\<close> and \<open>N2\<close> compare equal exactly when the lowercased texts are equal. The operator
  answers true exactly when the two addresses are the same or the two contents are the
  same bytes, and its answer is that of the comparison of the contents alone: the
  shortcut on the addresses changes nothing.
\<close>

theorem C1_equal_iff_lowercase_equal:
  assumes "registry_ok r" and "v1 \<noteq> v2"
  shows "let st2 = ctor_name r (ctor_name r st v1 N1) v2 N2 in
           op_eq r st2 v1 v2 = Inr (lowercase N1 = lowercase N2)
         \<and> op_eq r st2 v1 v2 =
             Inr (address st2 v1 = address st2 v2 \<or> get r st2 v1 = get r st2 v2)
         \<and> op_eq r st2 v1 v2 = on_contents (=) (get r st2 v1) (get r st2 v2)"
proof -
  define st1 where "st1 = ctor_name r st v1 N1"
  define st2 where "st2 = ctor_name r st1 v2 N2"
  have g1: "get r st1 v1 = Inr (lowercase N1)"
    using assms(1) by (simp add: st1_def ctor_name_def get_storeAddress)
  have g1': "get r st2 v1 = Inr (lowercase N1)"
    unfolding st2_def using assms(2) g1 by (rule get_ctor_name_frame)
  have g2: "get r st2 v2 = Inr (lowercase N2)"
    using assms(1) by (simp add: st2_def ctor_name_def get_storeAddress)
  have e: "op_eq r st2 v1 v2 = Inr (lowercase N1 = lowercase N2)"
    using g1' g2 by (rule op_eq_live)
  have same: "address st2 v1 = address st2 v2 \<Longrightarrow> lowercase N1 = lowercase N2"
    using g1' g2 by (simp add: get_def)
  have "op_eq r st2 v1 v2 =
          Inr (address st2 v1 = address st2 v2 \<or> get r st2 v1 = get r st2 v2)"
    using e same by (auto simp: g1' g2)
  moreover have "op_eq r st2 v1 v2 = on_contents (=) (get r st2 v1) (get r st2 v2)"
    using e by (simp add: g1' g2 on_contents_def)
  ultimately show ?thesis
    using e by (simp add: st1_def st2_def Let_def)
qed

text \<open>
  With the sample table: \<^verbatim>\<open>HOST\<close> and \<^verbatim>\<open>host\<close> are equal, \<^verbatim>\<open>X-Foo\<close> and \<^verbatim>\<open>X-Bar\<close>
  are not.
\<close>

theorem C1_witness:
  "registry_ok sample_registry \<and> (2::nat) \<noteq> 3
   \<and> op_eq sample_registry
        (ctor_name sample_registry (ctor_name sample_registry st0 2 ''HOST'') 3 ''host'') 2 3
       = Inr True
   \<and> op_eq sample_registry
        (ctor_name sample_registry (ctor_name sample_registry st0 2 ''X-Foo'') 3 ''X-Bar'') 2 3
       = Inr False"
proof -
  note h = sample_ok
  have d: "(2::nat) \<noteq> 3" by simp
  show ?thesis
    using h C1_equal_iff_lowercase_equal [OF h d, of st0 "''HOST''" "''host''"]
      C1_equal_iff_lowercase_equal [OF h d, of st0 "''X-Foo''" "''X-Bar''"]
    by (simp add: Let_def lowercase_HOST lowercase_host lowercase_X_Foo lowercase_X_Bar)
qed

subsection \<open>C2: the comparisons form a strict total order\<close>

text \<open>
  C2. Let the table be in strictly ascending order of its strings, compared byte by byte.
  Then on handles that are not Empty and do not dangle, \<open><\<close> is irreflexive, asymmetric
  and transitive, \<open>a < b\<close> is \<open>b > a\<close>, \<open>>=\<close> and \<open><=\<close> are the negations of \<open><\<close> and \<open>>\<close> and
  mean greater or equal and less or equal, and exactly one of \<open>a < b\<close>, \<open>a == b\<close>,
  \<open>a > b\<close> holds. When neither handle is Owned the answer is the order of the addresses;
  in every case it is the order of the contents, so the two regimes agree.
\<close>

theorem C2_strict_total_order:
  assumes sorted: "sorted_wrt (<) (tbl r)"
    and a: "storage_of r st a \<noteq> Empty" "live r st a"
    and b: "storage_of r st b \<noteq> Empty" "live r st b"
    and c: "storage_of r st c \<noteq> Empty" "live r st c"
  shows "op_lt r st a a = Inr False
       \<and> (op_lt r st a b = Inr True \<longrightarrow> op_lt r st b a = Inr False)
       \<and> (op_lt r st a b = Inr True \<and> op_lt r st b c = Inr True \<longrightarrow> op_lt r st a c = Inr True)
       \<and> op_lt r st a b = op_gt r st b a
       \<and> op_ge r st a b = negate (op_lt r st a b)
       \<and> op_le r st a b = negate (op_gt r st a b)
       \<and> op_ge r st a b = Inr (op_gt r st a b = Inr True \<or> op_eq r st a b = Inr True)
       \<and> op_le r st a b = Inr (op_lt r st a b = Inr True \<or> op_eq r st a b = Inr True)
       \<and> (op_lt r st a b = Inr True \<and> op_eq r st a b = Inr False \<and> op_gt r st a b = Inr False
          \<or> op_lt r st a b = Inr False \<and> op_eq r st a b = Inr True \<and> op_gt r st a b = Inr False
          \<or> op_lt r st a b = Inr False \<and> op_eq r st a b = Inr False \<and> op_gt r st a b = Inr True)
       \<and> (storage_of r st a \<noteq> Owned \<and> storage_of r st b \<noteq> Owned \<longrightarrow>
            op_lt r st a b = Inr (address st a < address st b)
          \<and> op_gt r st a b = Inr (address st a > address st b))
       \<and> op_lt r st a b = on_contents (\<lambda>s t. s < t) (get r st a) (get r st b)
       \<and> op_gt r st a b = on_contents (\<lambda>s t. s > t) (get r st a) (get r st b)"
proof -
  from live_get [OF a] obtain sa where ga: "get r st a = Inr sa" by auto
  from live_get [OF b] obtain sb where gb: "get r st b = Inr sb" by auto
  from live_get [OF c] obtain sc where gc: "get r st c = Inr sc" by auto
  note lt = op_lt_contents [OF sorted]
  note gt = op_gt_contents [OF sorted]
  have 1: "op_lt r st a a = Inr False" using lt [OF ga ga] by simp
  have 2: "op_lt r st a b = Inr True \<longrightarrow> op_lt r st b a = Inr False"
    using lt [OF ga gb] lt [OF gb ga] by auto
  have 3: "op_lt r st a b = Inr True \<and> op_lt r st b c = Inr True \<longrightarrow> op_lt r st a c = Inr True"
    using lt [OF ga gb] lt [OF gb gc] lt [OF ga gc] by auto
  have 4: "op_lt r st a b = op_gt r st b a"
    using lt [OF ga gb] gt [OF gb ga] by simp
  have 5: "op_ge r st a b = negate (op_lt r st a b)" by (simp add: op_ge_def)
  have 6: "op_le r st a b = negate (op_gt r st a b)" by (simp add: op_le_def)
  have 7: "op_lt r st a b = Inr True \<and> op_eq r st a b = Inr False \<and> op_gt r st a b = Inr False
          \<or> op_lt r st a b = Inr False \<and> op_eq r st a b = Inr True \<and> op_gt r st a b = Inr False
          \<or> op_lt r st a b = Inr False \<and> op_eq r st a b = Inr False \<and> op_gt r st a b = Inr True"
    using lt [OF ga gb] gt [OF ga gb] op_eq_live [OF ga gb] by auto
  have 8: "storage_of r st a \<noteq> Owned \<and> storage_of r st b \<noteq> Owned \<longrightarrow>
            op_lt r st a b = Inr (address st a < address st b)
          \<and> op_gt r st a b = Inr (address st a > address st b)"
    by (simp add: op_lt_def op_gt_def storage_isAllocated)
  have 9: "op_lt r st a b = on_contents (\<lambda>s t. s < t) (get r st a) (get r st b)"
    using lt [OF ga gb] by (simp add: ga gb on_contents_def)
  have 10: "op_gt r st a b = on_contents (\<lambda>s t. s > t) (get r st a) (get r st b)"
    using gt [OF ga gb] by (simp add: ga gb on_contents_def)
  have 11: "op_ge r st a b = Inr (op_gt r st a b = Inr True \<or> op_eq r st a b = Inr True)"
    using lt [OF ga gb] gt [OF ga gb] op_eq_live [OF ga gb]
    by (auto simp: op_ge_def negate_def)
  have 12: "op_le r st a b = Inr (op_lt r st a b = Inr True \<or> op_eq r st a b = Inr True)"
    using lt [OF ga gb] gt [OF ga gb] op_eq_live [OF ga gb]
    by (auto simp: op_le_def negate_def)
  from 1 2 3 4 5 6 7 8 9 10 11 12 show ?thesis by blast
qed

text \<open>
  With the sample table: \<^verbatim>\<open>accept\<close> and \<^verbatim>\<open>host\<close> are borrowed, \<^verbatim>\<open>x-foo\<close> is owned, and
  they compare in that order.
\<close>

theorem C2_witness:
  "sorted_wrt (<) (tbl sample_registry)
   \<and> storage_of sample_registry st_mixed 2 = Borrowed \<and> live sample_registry st_mixed 2
   \<and> storage_of sample_registry st_mixed 3 = Borrowed \<and> live sample_registry st_mixed 3
   \<and> storage_of sample_registry st_mixed 4 = Owned \<and> live sample_registry st_mixed 4
   \<and> op_lt sample_registry st_mixed 2 3 = Inr True
   \<and> op_lt sample_registry st_mixed 3 4 = Inr True
   \<and> op_lt sample_registry st_mixed 2 4 = Inr True
   \<and> op_lt sample_registry st_mixed 3 2 = Inr False
   \<and> op_gt sample_registry st_mixed 3 2 = Inr True
   \<and> op_ge sample_registry st_mixed 2 3 = Inr False"
proof -
  have l12: "op_lt sample_registry st_mixed 2 3 = Inr True"
    using op_lt_contents [OF sample_sorted st_mixed_get(1) st_mixed_get(2)] by simp
  have l23: "op_lt sample_registry st_mixed 3 4 = Inr True"
    using op_lt_contents [OF sample_sorted st_mixed_get(2) st_mixed_get(3)] by simp
  have ne: "storage_of sample_registry st_mixed 2 \<noteq> Empty"
    "storage_of sample_registry st_mixed 3 \<noteq> Empty"
    "storage_of sample_registry st_mixed 4 \<noteq> Empty"
    by (simp_all add: st_mixed_storage)
  from C2_strict_total_order [OF sample_sorted ne(1) st_mixed_live(1) ne(2) st_mixed_live(2)
      ne(3) st_mixed_live(3)] l12 l23
  show ?thesis
    by (simp add: sample_sorted st_mixed_storage st_mixed_live negate_def)
qed

subsection \<open>C3: the hash is the hash of the content\<close>

text \<open>
  C3. The hash of a handle that is not Empty and does not dangle is the hash of its
  content string; the address does not enter. Two such handles with the same content,
  whatever their storage, compare equal and have the same hash.
\<close>

theorem C3_hash_of_content:
  assumes a: "storage_of r st a \<noteq> Empty" "live r st a"
    and b: "storage_of r st b \<noteq> Empty" "live r st b"
  shows "(\<exists>s. get r st a = Inr s \<and> hash_HPACKHeaderName H r st a = Inr (H s))
       \<and> (get r st a = get r st b \<longrightarrow>
            op_eq r st a b = Inr True
          \<and> hash_HPACKHeaderName H r st a = hash_HPACKHeaderName H r st b)"
proof -
  from live_get [OF a] obtain sa where ga: "get r st a = Inr sa" by auto
  from live_get [OF b] obtain sb where gb: "get r st b = Inr sb" by auto
  show ?thesis
    using op_eq_live [OF ga gb] hash_get [OF ga, of H] hash_get [OF gb, of H]
    by (auto simp: ga gb)
qed

text \<open>
  Two owned handles of \<^verbatim>\<open>x-foo\<close> at two addresses are equal and hash alike (the hash
  being the length here).
\<close>

theorem C3_witness:
  "storage_of sample_registry st_pair 2 = Owned \<and> live sample_registry st_pair 2
   \<and> storage_of sample_registry st_pair 3 = Owned \<and> live sample_registry st_pair 3
   \<and> address st_pair 2 \<noteq> address st_pair 3
   \<and> get sample_registry st_pair 2 = get sample_registry st_pair 3
   \<and> op_eq sample_registry st_pair 2 3 = Inr True
   \<and> hash_HPACKHeaderName length sample_registry st_pair 2 = Inr 5
   \<and> hash_HPACKHeaderName length sample_registry st_pair 3 = Inr 5"
proof -
  have ne: "storage_of sample_registry st_pair 2 \<noteq> Empty"
    "storage_of sample_registry st_pair 3 \<noteq> Empty"
    by (simp_all add: st_pair_storage)
  have l: "live sample_registry st_pair 2" "live sample_registry st_pair 3"
    by (simp_all add: live_iff_get st_pair_get)
  from C3_hash_of_content [OF ne(1) l(1) ne(2) l(2), of length]
  show ?thesis
    by (auto simp: st_pair_get st_pair_storage st_pair_address l)
qed

subsection \<open>C4: reading the content goes wrong exactly on an Empty handle\<close>

text \<open>
  The accessors check nothing: on a handle that is Empty they dereference the null
  address, and no reading of a content ends in the checked error \<open>InvalidState\<close>. A default
  constructed handle shows it.
\<close>

theorem C4_counterexample:
  "storage_of sample_registry (ctor_default st0 2) 2 = Empty
   \<and> get sample_registry (ctor_default st0 2) 2 = Inl NullDereference
   \<and> \<not> (get sample_registry (ctor_default st0 2) 2 = Inl InvalidState
          \<longleftrightarrow> storage_of sample_registry (ctor_default st0 2) 2 = Empty)"
  by (simp add: get_Empty storage_Empty ctor_default_def address_set_address)

text \<open>
  C4, as the code has it. On a handle that does not dangle, \<^verbatim>\<open>get\<close>, \<^verbatim>\<open>size\<close>, \<^verbatim>\<open>data\<close> and
  \<^verbatim>\<open>c_str\<close> go wrong exactly when the handle is Empty, by dereferencing the null address
  (undefined behaviour in the source, never the checked error \<open>InvalidState\<close>), and return
  the content (its length, its bytes) otherwise. On handles that are not Empty, the six
  comparisons and the hash return a value, and copying, by the constructor or by
  assignment, returns a state. Allocation is taken to succeed.
\<close>

theorem C4_access_undefined_iff_empty:
  assumes v: "live r st v" and w: "live r st w"
  shows "(get r st v = Inl NullDereference \<longleftrightarrow> storage_of r st v = Empty)
       \<and> (size_u32 r st v = Inl NullDereference \<longleftrightarrow> storage_of r st v = Empty)
       \<and> (data r st v = Inl NullDereference \<longleftrightarrow> storage_of r st v = Empty)
       \<and> (c_str r st v = Inl NullDereference \<longleftrightarrow> storage_of r st v = Empty)
       \<and> get r st v \<noteq> Inl InvalidState \<and> size_u32 r st v \<noteq> Inl InvalidState
       \<and> data r st v \<noteq> Inl InvalidState \<and> c_str r st v \<noteq> Inl InvalidState
       \<and> (storage_of r st v \<noteq> Empty \<longrightarrow>
            (\<exists>s. get r st v = Inr s \<and> size_u32 r st v = Inr (of_nat (length s))
                \<and> data r st v = Inr s \<and> c_str r st v = Inr s
                \<and> hash_HPACKHeaderName H r st v = Inr (H s))
          \<and> (\<exists>st'. ctor_copy r st u v = Inr st')
          \<and> (u = v \<or> unshared r st u v \<longrightarrow> (\<exists>st'. assign_copy r st u v = Inr st')))
       \<and> (storage_of r st v \<noteq> Empty \<and> storage_of r st w \<noteq> Empty \<longrightarrow>
            (\<exists>x. op_eq r st v w = Inr x) \<and> (\<exists>x. op_ne r st v w = Inr x)
          \<and> (\<exists>x. op_lt r st v w = Inr x) \<and> (\<exists>x. op_gt r st v w = Inr x)
          \<and> (\<exists>x. op_le r st v w = Inr x) \<and> (\<exists>x. op_ge r st v w = Inr x))"
proof -
  have acc: "(get r st v = Inl NullDereference \<longleftrightarrow> storage_of r st v = Empty)
       \<and> (size_u32 r st v = Inl NullDereference \<longleftrightarrow> storage_of r st v = Empty)
       \<and> (data r st v = Inl NullDereference \<longleftrightarrow> storage_of r st v = Empty)
       \<and> (c_str r st v = Inl NullDereference \<longleftrightarrow> storage_of r st v = Empty)"
    using get_live_cases [OF v] by (auto simp: accessors_eq_get)
  have one: "storage_of r st v \<noteq> Empty \<longrightarrow>
            (\<exists>s. get r st v = Inr s \<and> size_u32 r st v = Inr (of_nat (length s))
                \<and> data r st v = Inr s \<and> c_str r st v = Inr s
                \<and> hash_HPACKHeaderName H r st v = Inr (H s))
          \<and> (\<exists>st'. ctor_copy r st u v = Inr st')
          \<and> (u = v \<or> unshared r st u v \<longrightarrow> (\<exists>st'. assign_copy r st u v = Inr st'))"
    using get_live_cases [OF v] ctor_copy_total [OF v, of u] assign_copy_total [OF v, of u]
    by (auto simp: accessors_eq_get hash_HPACKHeaderName_def)
  have two: "storage_of r st v \<noteq> Empty \<and> storage_of r st w \<noteq> Empty \<longrightarrow>
            (\<exists>x. op_eq r st v w = Inr x) \<and> (\<exists>x. op_ne r st v w = Inr x)
          \<and> (\<exists>x. op_lt r st v w = Inr x) \<and> (\<exists>x. op_gt r st v w = Inr x)
          \<and> (\<exists>x. op_le r st v w = Inr x) \<and> (\<exists>x. op_ge r st v w = Inr x)"
  proof
    assume "storage_of r st v \<noteq> Empty \<and> storage_of r st w \<noteq> Empty"
    with get_live_cases [OF v] get_live_cases [OF w]
    obtain s t where g: "get r st v = Inr s" "get r st w = Inr t" by auto
    have "\<exists>x. op_eq r st v w = Inr x" using op_eq_live [OF g] by simp
    moreover have "\<exists>x. op_lt r st v w = Inr x"
      by (simp add: op_lt_def on_contents_def g)
    moreover have "\<exists>x. op_gt r st v w = Inr x"
      by (simp add: op_gt_def on_contents_def g)
    ultimately show "(\<exists>x. op_eq r st v w = Inr x) \<and> (\<exists>x. op_ne r st v w = Inr x)
          \<and> (\<exists>x. op_lt r st v w = Inr x) \<and> (\<exists>x. op_gt r st v w = Inr x)
          \<and> (\<exists>x. op_le r st v w = Inr x) \<and> (\<exists>x. op_ge r st v w = Inr x)"
      by (auto simp: op_ne_def op_le_def op_ge_def negate_def)
  qed
  from acc one two accessors_not_InvalidState [of r st v] show ?thesis by blast
qed

text \<open>
  In the sample state: the Empty object 7 cannot be read, the owned \<^verbatim>\<open>x-foo\<close> can, and it
  compares with the borrowed \<^verbatim>\<open>accept\<close>.
\<close>

theorem C4_witness:
  "live sample_registry st_mixed 7 \<and> storage_of sample_registry st_mixed 7 = Empty
   \<and> get sample_registry st_mixed 7 = Inl NullDereference
   \<and> size_u32 sample_registry st_mixed 7 = Inl NullDereference
   \<and> live sample_registry st_mixed 4 \<and> live sample_registry st_mixed 2
   \<and> storage_of sample_registry st_mixed 4 = Owned
   \<and> storage_of sample_registry st_mixed 2 = Borrowed
   \<and> get sample_registry st_mixed 4 = Inr ''x-foo''
   \<and> size_u32 sample_registry st_mixed 4 = Inr 5
   \<and> (\<exists>x. op_lt sample_registry st_mixed 4 2 = Inr x)
   \<and> (\<exists>st'. ctor_copy sample_registry st_mixed 5 4 = Inr st')"
proof -
  from C4_access_undefined_iff_empty [OF st_mixed_empty(3) st_mixed_empty(3), of length 7]
  have e: "get sample_registry st_mixed 7 = Inl NullDereference"
    "size_u32 sample_registry st_mixed 7 = Inl NullDereference"
    by (simp_all add: st_mixed_empty)
  from C4_access_undefined_iff_empty [OF st_mixed_live(3) st_mixed_live(1), of length 5]
  have "size_u32 sample_registry st_mixed 4 = Inr 5"
    "\<exists>x. op_lt sample_registry st_mixed 4 2 = Inr x"
    "\<exists>st'. ctor_copy sample_registry st_mixed 5 4 = Inr st'"
    by (auto simp: st_mixed_storage st_mixed_get)
  with e show ?thesis
    by (simp add: st_mixed_empty st_mixed_storage st_mixed_live st_mixed_get)
qed

subsection \<open>C5: the content is the lowercased name\<close>

text \<open>
  C5. With a registry that keeps its contract, whatever the text, the handle constructed
  from it holds the text lowercased byte by byte: the table's string when the registry
  classifies the text as a common header (the handle is Borrowed), a new string when it
  answers with a sentinel (the handle is Owned). So the handle of \<^verbatim>\<open>Content-Length\<close> reads
  \<^verbatim>\<open>content-length\<close> and that of \<^verbatim>\<open>X-Foo\<close> reads \<^verbatim>\<open>x-foo\<close>, whether or not the registry
  knows them.
\<close>

theorem C5_content_is_lowercase:
  assumes "registry_ok r"
  shows "get r (ctor_name r st v name) v = Inr (lowercase name)
       \<and> storage_of r (ctor_name r st v name) v =
           (if HTTPCommonHeaders_hash r name = HTTP_HEADER_NONE
             \<or> HTTPCommonHeaders_hash r name = HTTP_HEADER_OTHER
            then Owned else Borrowed)
       \<and> get r (ctor_name r st v ''Content-Length'') v = Inr ''content-length''
       \<and> get r (ctor_name r st v ''X-Foo'') v = Inr ''x-foo''"
  using assms
  by (simp add: get_ctor_name storage_ctor_name lowercase_Content_Length lowercase_X_Foo)

text \<open>
  With the sample table, \<^verbatim>\<open>Content-Length\<close> is borrowed from the table and \<^verbatim>\<open>X-Foo\<close> is
  owned.
\<close>

theorem C5_witness:
  "registry_ok sample_registry
   \<and> get sample_registry (ctor_name sample_registry st0 3 ''Content-Length'') 3
       = Inr ''content-length''
   \<and> storage_of sample_registry (ctor_name sample_registry st0 3 ''Content-Length'') 3 = Borrowed
   \<and> get sample_registry (ctor_name sample_registry st0 2 ''X-Foo'') 2 = Inr ''x-foo''
   \<and> storage_of sample_registry (ctor_name sample_registry st0 2 ''X-Foo'') 2 = Owned"
proof -
  note h = sample_ok
  show ?thesis
    using h C5_content_is_lowercase [OF h, of st0 3 "''Content-Length''"]
      C5_content_is_lowercase [OF h, of st0 2 "''X-Foo''"]
    by (simp add: sample_hash lowercase_Content_Length lowercase_X_Foo)
qed

subsection \<open>C6: moving\<close>

text \<open>
  Reading the content of a handle that was moved from does not end in the checked error
  \<open>InvalidState\<close>: the source dereferences the null address.
\<close>

theorem C6_counterexample:
  "storage_of sample_registry (ctor_move st_mixed 5 4) 4 = Empty
   \<and> get sample_registry (ctor_move st_mixed 5 4) 4 = Inl NullDereference
   \<and> get sample_registry (ctor_move st_mixed 5 4) 4 \<noteq> Inl InvalidState"
  by (simp add: get_Empty storage_Empty ctor_move_def address_moveAddress)

text \<open>
  C6, as the code has it. After \<^verbatim>\<open>b = move(a)\<close> on two objects, \<open>b\<close> holds the address \<open>a\<close>
  held, so the state and the content \<open>a\<close> had; \<open>a\<close> is Empty and reading its content
  dereferences the null address (undefined behaviour in the source, not the checked
  error \<open>InvalidState\<close>). The move constructor leaves the heap as it is; move assignment
  only releases the string \<open>b\<close> owned before, provided \<open>b\<close> did not already point at the
  string of \<open>a\<close>. Neither allocates, and neither reads a content.
\<close>

theorem C6_move_transfers_and_empties:
  assumes ne: "b \<noteq> a"
  shows "(let st' = ctor_move st b a in
            address st' b = address st a \<and> heap st' = heap st
          \<and> storage_of r st' b = storage_of r st a \<and> get r st' b = get r st a
          \<and> storage_of r st' a = Empty \<and> get r st' a = Inl NullDereference)
       \<and> (unshared r st b a \<longrightarrow>
           (let st' = assign_move r st b a in
            address st' b = address st a \<and> heap st' = heap (resetAddress r st b)
          \<and> set (heap st') \<subseteq> set (heap st)
          \<and> storage_of r st' b = storage_of r st a \<and> get r st' b = get r st a
          \<and> storage_of r st' a = Empty \<and> get r st' a = Inl NullDereference))"
proof (intro conjI impI)
  let ?st' = "ctor_move st b a"
  have a: "address ?st' b = address st a" "address ?st' a = 0" "heap ?st' = heap st"
    using ne by (simp_all add: ctor_move_def address_moveAddress heap_moveAddress
        address_set_address heap_set_address)
  have "storage_of r ?st' b = storage_of r st a" using a(1) by (rule storage_of_address)
  moreover have "get r ?st' b = get r st a"
    using a(1) deref_heap_cong [OF a(3)] by (simp add: get_def)
  moreover have "storage_of r ?st' a = Empty" using a(2) by (simp add: storage_Empty)
  moreover from this have "get r ?st' a = Inl NullDereference" by (rule get_Empty)
  ultimately show "let st' = ctor_move st b a in
            address st' b = address st a \<and> heap st' = heap st
          \<and> storage_of r st' b = storage_of r st a \<and> get r st' b = get r st a
          \<and> storage_of r st' a = Empty \<and> get r st' a = Inl NullDereference"
    using a by (simp add: Let_def)
next
  assume u: "unshared r st b a"
  let ?st1 = "resetAddress r st b"
  let ?st' = "assign_move r st b a"
  have a: "address ?st' b = address st a" "address ?st' a = 0" "heap ?st' = heap ?st1"
    using ne by (simp_all add: assign_move_def address_moveAddress heap_moveAddress
        address_resetAddress)
  have sub: "set (heap ?st1) \<subseteq> set (heap st)" by (auto simp: heap_resetAddress)
  have "storage_of r ?st' b = storage_of r st a" using a(1) by (rule storage_of_address)
  moreover have "get r ?st' b = get r st a"
  proof -
    have "get r ?st' b = deref r ?st1 (address st a)"
      using a(1) deref_heap_cong [OF a(3)] by (simp add: get_def)
    also have "\<dots> = deref r st (address st a)"
      using u by (intro deref_resetAddress) (auto simp: unshared_def)
    finally show ?thesis by (simp add: get_def)
  qed
  moreover have "storage_of r ?st' a = Empty" using a(2) by (simp add: storage_Empty)
  moreover from this have "get r ?st' a = Inl NullDereference" by (rule get_Empty)
  ultimately show "let st' = assign_move r st b a in
            address st' b = address st a \<and> heap st' = heap (resetAddress r st b)
          \<and> set (heap st') \<subseteq> set (heap st)
          \<and> storage_of r st' b = storage_of r st a \<and> get r st' b = get r st a
          \<and> storage_of r st' a = Empty \<and> get r st' a = Inl NullDereference"
    using a sub by (simp add: Let_def)
qed

text \<open>
  In the sample state: the owned \<^verbatim>\<open>x-foo\<close> of object 4 moves into a new object 5, and
  into the object 2 that held \<^verbatim>\<open>accept\<close>.
\<close>

theorem C6_witness:
  "(5::nat) \<noteq> 4 \<and> (2::nat) \<noteq> 4 \<and> unshared sample_registry st_mixed 2 4
   \<and> get sample_registry (ctor_move st_mixed 5 4) 5 = Inr ''x-foo''
   \<and> storage_of sample_registry (ctor_move st_mixed 5 4) 5 = Owned
   \<and> heap (ctor_move st_mixed 5 4) = heap st_mixed
   \<and> storage_of sample_registry (ctor_move st_mixed 5 4) 4 = Empty
   \<and> get sample_registry (ctor_move st_mixed 5 4) 4 = Inl NullDereference
   \<and> get sample_registry (assign_move sample_registry st_mixed 2 4) 2 = Inr ''x-foo''
   \<and> get sample_registry (assign_move sample_registry st_mixed 2 4) 4 = Inl NullDereference"
proof -
  have n: "(5::nat) \<noteq> 4" "(2::nat) \<noteq> 4" by simp_all
  have u: "unshared sample_registry st_mixed 2 4"
    by (simp add: unshared_def st_mixed_storage)
  from C6_move_transfers_and_empties [OF n(1), of st_mixed sample_registry]
    C6_move_transfers_and_empties [OF n(2), of st_mixed sample_registry] u
  show ?thesis
    by (simp add: Let_def st_mixed_get st_mixed_storage)
qed

subsection \<open>C7: isCommonName\<close>

text \<open>
  C7. \<^verbatim>\<open>isCommonName\<close> is true exactly when the handle is Borrowed: its address is not
  null and lies in the table. With a registry that keeps its contract, a handle
  constructed from a name is common exactly when the registry classifies the name as a
  common header: \<^verbatim>\<open>Host\<close> is when the registry knows it, \<^verbatim>\<open>X-Custom-Thing\<close> is not when the
  registry answers \<open>HTTP_HEADER_OTHER\<close>, and a default constructed handle is not.
\<close>

theorem C7_isCommonName_iff_borrowed:
  "isCommonName r st v = (storage_of r st v = Borrowed)
   \<and> (registry_ok r \<longrightarrow>
        isCommonName r (ctor_name r st v name) v =
          (HTTPCommonHeaders_hash r name \<noteq> HTTP_HEADER_NONE
           \<and> HTTPCommonHeaders_hash r name \<noteq> HTTP_HEADER_OTHER))
   \<and> (registry_ok r \<and> HTTPCommonHeaders_hash r ''Host'' = HTTP_HEADER_COMMON i \<longrightarrow>
        isCommonName r (ctor_name r st v ''Host'') v)
   \<and> (registry_ok r \<and> HTTPCommonHeaders_hash r ''X-Custom-Thing'' = HTTP_HEADER_OTHER \<longrightarrow>
        \<not> isCommonName r (ctor_name r st v ''X-Custom-Thing'') v)
   \<and> \<not> isCommonName r (ctor_default st v) v"
proof -
  have b: "isCommonName r st' v' = (storage_of r st' v' = Borrowed)" for st' v'
    by (simp add: isCommonName_def isAllocated_def storage_of_def)
  have n: "registry_ok r \<Longrightarrow>
        isCommonName r (ctor_name r st v n) v =
          (HTTPCommonHeaders_hash r n \<noteq> HTTP_HEADER_NONE
           \<and> HTTPCommonHeaders_hash r n \<noteq> HTTP_HEADER_OTHER)" for n
    by (simp add: b storage_ctor_name)
  have "\<not> isCommonName r (ctor_default st v) v"
    by (simp add: isCommonName_def ctor_default_def address_set_address)
  with b n [of name] n [of "''Host''"] n [of "''X-Custom-Thing''"]
  show ?thesis by simp
qed

text \<open>With the sample table, \<^verbatim>\<open>Host\<close> is a common name and \<^verbatim>\<open>X-Custom-Thing\<close> is not.\<close>

theorem C7_witness:
  "registry_ok sample_registry
   \<and> HTTPCommonHeaders_hash sample_registry ''Host'' = HTTP_HEADER_COMMON 2
   \<and> HTTPCommonHeaders_hash sample_registry ''X-Custom-Thing'' = HTTP_HEADER_OTHER
   \<and> isCommonName sample_registry (ctor_name sample_registry st0 2 ''Host'') 2
   \<and> \<not> isCommonName sample_registry (ctor_name sample_registry st0 2 ''X-Custom-Thing'') 2
   \<and> \<not> isCommonName sample_registry (ctor_default st0 2) 2"
  using C7_isCommonName_iff_borrowed [of sample_registry st0 2 "''Host''" 2]
  by (simp add: sample_ok sample_hash)

subsection \<open>C8: copying\<close>

text \<open>
  C8. Copying from a source that does not dangle into another object succeeds and gives
  the copy the state and the content of the source, which keeps its address and content.
  From a source that is Borrowed or Empty the copy takes the same address and the heap
  stays as it is. From a source that is Owned, the copy points at a string newly put in
  the heap, with the source's content, at an address that is not the source's: the two
  do not share it. This holds for the copy constructor and, when the target does not
  already point at the source's string, for copy assignment.
\<close>

theorem C8_copy_preserves_state_and_content:
  assumes ne: "this \<noteq> src" and l: "live r st src"
  shows "(\<exists>st'. ctor_copy r st this src = Inr st'
      \<and> storage_of r st' this = storage_of r st src
      \<and> get r st' this = get r st src
      \<and> address st' src = address st src \<and> get r st' src = get r st src
      \<and> (storage_of r st src \<noteq> Owned \<longrightarrow>
            address st' this = address st src \<and> heap st' = heap st)
      \<and> (storage_of r st src = Owned \<longrightarrow>
            address st' this \<noteq> address st' src
          \<and> address st' this \<notin> fst ` set (heap st)
          \<and> (\<exists>s. get r st src = Inr s \<and> heap st' = (address st' this, s) # heap st)))
    \<and> (unshared r st this src \<longrightarrow>
        (\<exists>st'. assign_copy r st this src = Inr st'
      \<and> storage_of r st' this = storage_of r st src
      \<and> get r st' this = get r st src
      \<and> address st' src = address st src \<and> get r st' src = get r st src
      \<and> (storage_of r st src \<noteq> Owned \<longrightarrow>
            address st' this = address st src \<and> heap st' = heap (resetAddress r st this))
      \<and> (storage_of r st src = Owned \<longrightarrow>
            address st' this \<noteq> address st' src
          \<and> (\<exists>s. get r st src = Inr s
                \<and> heap st' = (address st' this, s) # heap (resetAddress r st this)))))"
proof (intro conjI impI)
  let ?st1 = "set_address st this 0"
  have src: "address ?st1 src = address st src" "storage_of r ?st1 src = storage_of r st src"
    "get r ?st1 src = get r st src" "heap ?st1 = heap st"
    using ne by (simp_all add: address_set_address storage_set_address_frame
        get_set_address_frame heap_set_address)
  have "live r ?st1 src" using ne l by (simp add: live_set_address_frame)
  from copyAddress_props [OF ne this]
  show "\<exists>st'. ctor_copy r st this src = Inr st'
      \<and> storage_of r st' this = storage_of r st src
      \<and> get r st' this = get r st src
      \<and> address st' src = address st src \<and> get r st' src = get r st src
      \<and> (storage_of r st src \<noteq> Owned \<longrightarrow>
            address st' this = address st src \<and> heap st' = heap st)
      \<and> (storage_of r st src = Owned \<longrightarrow>
            address st' this \<noteq> address st' src
          \<and> address st' this \<notin> fst ` set (heap st)
          \<and> (\<exists>s. get r st src = Inr s \<and> heap st' = (address st' this, s) # heap st))"
    unfolding ctor_copy_def src by metis
next
  assume u: "unshared r st this src"
  let ?st1 = "resetAddress r st this"
  have src: "address ?st1 src = address st src" "storage_of r ?st1 src = storage_of r st src"
    "get r ?st1 src = get r st src"
    using ne u by (simp_all add: address_resetAddress storage_resetAddress_frame
        get_resetAddress_frame)
  have "live r ?st1 src" using ne u l by (simp add: live_resetAddress_frame)
  from copyAddress_props [OF ne this]
  show "\<exists>st'. assign_copy r st this src = Inr st'
      \<and> storage_of r st' this = storage_of r st src
      \<and> get r st' this = get r st src
      \<and> address st' src = address st src \<and> get r st' src = get r st src
      \<and> (storage_of r st src \<noteq> Owned \<longrightarrow>
            address st' this = address st src \<and> heap st' = heap (resetAddress r st this))
      \<and> (storage_of r st src = Owned \<longrightarrow>
            address st' this \<noteq> address st' src
          \<and> (\<exists>s. get r st src = Inr s
                \<and> heap st' = (address st' this, s) # heap (resetAddress r st this)))"
    unfolding assign_copy_def src by metis
qed

text \<open>
  In the sample state: the copy of the owned \<^verbatim>\<open>x-foo\<close> is owned, reads \<^verbatim>\<open>x-foo\<close> and
  lies at another address; the copy of the borrowed \<^verbatim>\<open>host\<close> has the address of the
  source.
\<close>

theorem C8_witness:
  "(5::nat) \<noteq> 4 \<and> live sample_registry st_mixed 4 \<and> storage_of sample_registry st_mixed 4 = Owned
   \<and> (\<exists>st'. ctor_copy sample_registry st_mixed 5 4 = Inr st'
         \<and> storage_of sample_registry st' 5 = Owned
         \<and> get sample_registry st' 5 = Inr ''x-foo''
         \<and> get sample_registry st' 4 = Inr ''x-foo''
         \<and> address st' 5 \<noteq> address st' 4)
   \<and> (5::nat) \<noteq> 3 \<and> live sample_registry st_mixed 3
   \<and> storage_of sample_registry st_mixed 3 = Borrowed
   \<and> (\<exists>st'. ctor_copy sample_registry st_mixed 5 3 = Inr st'
         \<and> get sample_registry st' 5 = Inr ''host''
         \<and> address st' 5 = address st_mixed 3
         \<and> heap st' = heap st_mixed)"
proof -
  have n: "(5::nat) \<noteq> 4" "(5::nat) \<noteq> 3" by simp_all
  from C8_copy_preserves_state_and_content [OF n(1) st_mixed_live(3)]
  have 1: "\<exists>st'. ctor_copy sample_registry st_mixed 5 4 = Inr st'
         \<and> storage_of sample_registry st' 5 = Owned
         \<and> get sample_registry st' 5 = Inr ''x-foo''
         \<and> get sample_registry st' 4 = Inr ''x-foo''
         \<and> address st' 5 \<noteq> address st' 4"
    by (auto simp: st_mixed_storage st_mixed_get)
  from C8_copy_preserves_state_and_content [OF n(2) st_mixed_live(2)]
  have 2: "\<exists>st'. ctor_copy sample_registry st_mixed 5 3 = Inr st'
         \<and> get sample_registry st' 5 = Inr ''host''
         \<and> address st' 5 = address st_mixed 3
         \<and> heap st' = heap st_mixed"
    by (auto simp: st_mixed_storage st_mixed_get)
  from 1 2 show ?thesis
    by (simp add: st_mixed_storage st_mixed_live)
qed

subsection \<open>C9: assignment of a handle to itself\<close>

text \<open>
  C9. For a handle that is Owned, \<^verbatim>\<open>a = a\<close> and \<^verbatim>\<open>a = move(a)\<close> end where
  \<^verbatim>\<open>resetAddress\<close> alone ends: the string the handle owned is deleted, the handle is
  Empty, and reading its content dereferences the null address.
\<close>

theorem C9_self_assignment_empties:
  assumes "storage_of r st a = Owned"
  shows "assign_copy r st a a = Inr (resetAddress r st a)
       \<and> assign_move r st a a = resetAddress r st a
       \<and> storage_of r (resetAddress r st a) a = Empty
       \<and> get r (resetAddress r st a) a = Inl NullDereference
       \<and> address st a \<notin> fst ` set (heap (resetAddress r st a))
       \<and> map_of (heap (resetAddress r st a)) (address st a) = None"
proof -
  have e: "storage_of r (resetAddress r st a) a = Empty"
    by (simp add: storage_Empty address_resetAddress)
  have "address st a \<notin> fst ` set (heap (resetAddress r st a))"
    using assms by (auto simp: heap_resetAddress)
  moreover have "map_of (heap (resetAddress r st a)) (address st a) = None"
    using assms by (simp add: heap_resetAddress map_of_delete)
  ultimately show ?thesis
    using e get_Empty [OF e]
    by (simp add: assign_copy_def assign_move_def resetAddress_self_copy resetAddress_self_move)
qed

text \<open>In the sample state, assigning the owned \<^verbatim>\<open>x-foo\<close> to itself empties it.\<close>

theorem C9_witness:
  "storage_of sample_registry st_mixed 4 = Owned
   \<and> get sample_registry st_mixed 4 = Inr ''x-foo''
   \<and> assign_copy sample_registry st_mixed 4 4 = Inr (resetAddress sample_registry st_mixed 4)
   \<and> assign_move sample_registry st_mixed 4 4 = resetAddress sample_registry st_mixed 4
   \<and> storage_of sample_registry (resetAddress sample_registry st_mixed 4) 4 = Empty
   \<and> get sample_registry (resetAddress sample_registry st_mixed 4) 4 = Inl NullDereference"
  using C9_self_assignment_empties [OF st_mixed_storage(3)]
  by (simp add: st_mixed_storage st_mixed_get)

subsection \<open>C10: comparing Empty handles\<close>

text \<open>
  C10. Every handle is equal to itself, an Empty one too. Two Empty handles are equal and
  neither is less or greater than the other, though reading the content of either fails:
  the answer comes from the addresses. Between handles that do not dangle, \<open>==\<close> fails
  exactly when one of the two is Empty and the other is not, \<open><\<close> and \<open>>\<close> fail exactly
  when one is Empty and the other Owned, and the failure is the dereference of the null
  address.
\<close>

theorem C10_empty_comparisons:
  "op_eq r st a a = Inr True
   \<and> (storage_of r st a = Empty \<and> storage_of r st b = Empty \<longrightarrow>
        op_eq r st a b = Inr True \<and> op_lt r st a b = Inr False \<and> op_gt r st a b = Inr False
      \<and> get r st a = Inl NullDereference \<and> get r st b = Inl NullDereference)
   \<and> (live r st a \<and> live r st b \<longrightarrow>
        ((\<exists>e. op_eq r st a b = Inl e) \<longleftrightarrow>
           (storage_of r st a = Empty) \<noteq> (storage_of r st b = Empty))
      \<and> ((\<exists>e. op_lt r st a b = Inl e) \<longleftrightarrow>
           storage_of r st a = Empty \<and> storage_of r st b = Owned
         \<or> storage_of r st a = Owned \<and> storage_of r st b = Empty)
      \<and> ((\<exists>e. op_gt r st a b = Inl e) \<longleftrightarrow>
           storage_of r st a = Empty \<and> storage_of r st b = Owned
         \<or> storage_of r st a = Owned \<and> storage_of r st b = Empty)
      \<and> (\<forall>e. op_eq r st a b = Inl e \<or> op_lt r st a b = Inl e \<or> op_gt r st a b = Inl e
             \<longrightarrow> e = NullDereference))"
proof -
  have 1: "op_eq r st a a = Inr True" by (simp add: op_eq_def)
  have 2: "storage_of r st a = Empty \<and> storage_of r st b = Empty \<longrightarrow>
        op_eq r st a b = Inr True \<and> op_lt r st a b = Inr False \<and> op_gt r st a b = Inr False
      \<and> get r st a = Inl NullDereference \<and> get r st b = Inl NullDereference"
    by (auto simp: storage_Empty op_eq_def op_lt_def op_gt_def isAllocated_def get_def deref_def)
  have 3: "live r st a \<and> live r st b \<longrightarrow>
      (\<forall>e. op_eq r st a b = Inl e \<or> op_lt r st a b = Inl e \<or> op_gt r st a b = Inl e
             \<longrightarrow> e = NullDereference)"
    using compare_error_kind [of r st a b] by blast
  from 1 2 3 op_eq_error_iff [of r st a b] op_lt_error_iff [of r st a b]
    op_gt_error_iff [of r st a b]
  show ?thesis by blast
qed

text \<open>
  In the sample state, with two more objects that are Empty: they are equal and
  unordered, and comparing one with the owned \<^verbatim>\<open>x-foo\<close> fails.
\<close>

theorem C10_witness:
  "storage_of sample_registry st_mixed 7 = Empty \<and> storage_of sample_registry st_mixed 8 = Empty
   \<and> live sample_registry st_mixed 7 \<and> live sample_registry st_mixed 4
   \<and> storage_of sample_registry st_mixed 4 = Owned
   \<and> op_eq sample_registry st_mixed 7 8 = Inr True
   \<and> op_lt sample_registry st_mixed 7 8 = Inr False
   \<and> op_gt sample_registry st_mixed 7 8 = Inr False
   \<and> op_eq sample_registry st_mixed 7 4 = Inl NullDereference
   \<and> op_lt sample_registry st_mixed 7 4 = Inl NullDereference"
proof -
  from C10_empty_comparisons [of sample_registry st_mixed 7 8]
  have two: "op_eq sample_registry st_mixed 7 8 = Inr True"
    "op_lt sample_registry st_mixed 7 8 = Inr False"
    "op_gt sample_registry st_mixed 7 8 = Inr False"
    by (simp_all add: st_mixed_empty)
  from C10_empty_comparisons [of sample_registry st_mixed 7 4]
  have "(\<exists>e. op_eq sample_registry st_mixed 7 4 = Inl e)
      \<and> (\<exists>e. op_lt sample_registry st_mixed 7 4 = Inl e)
      \<and> (\<forall>e. op_eq sample_registry st_mixed 7 4 = Inl e
               \<or> op_lt sample_registry st_mixed 7 4 = Inl e
               \<or> op_gt sample_registry st_mixed 7 4 = Inl e \<longrightarrow> e = NullDereference)"
    by (simp add: st_mixed_empty st_mixed_storage st_mixed_live)
  then have "op_eq sample_registry st_mixed 7 4 = Inl NullDereference"
    "op_lt sample_registry st_mixed 7 4 = Inl NullDereference"
    by blast+
  with two show ?thesis
    by (simp add: st_mixed_empty st_mixed_storage st_mixed_live)
qed

end
